theory Spec2Isabelle
  imports Main
begin

section \<open>The collaboration engine of packages/collaborate/src/collaborate.ts\<close>

text \<open>
  A shallow embedding of class \<open>Collaborate\<close>. Mutable fields become fields of a state
  record that every method takes and returns; a thrown error is the \<open>Inl\<close> of a sum;
  offsets and counts that the collaborators hand over are \<open>nat\<close>, offsets the engine
  computes by subtraction are \<open>int\<close>.
\<close>

subsection \<open>Errors, values and objects\<close>

text \<open>
  \<open>UnexpectedDeltaAction\<close> and \<open>CannotFindComponentFactory\<close> are the two
  \<open>collaborateErrorFn\<close> errors; \<open>TypeError\<close> and \<open>RangeError\<close> are the runtime's.
\<close>

datatype error =
    UnexpectedDeltaAction
  | CannotFindComponentFactory
  | TypeError
  | RangeError

datatype jsvalue = JNull | JBool bool | JNum int | JStr string | JArr "jsvalue list"

text \<open>
  An object with string keys (and a \<open>Map\<close>): its entries in insertion order.
  \<open>obj[key] = v\<close> replaces the value of a key that is there and appends a new key.
\<close>

type_synonym 'v object = "(string \<times> 'v) list"

fun obj_set :: "string \<Rightarrow> 'v \<Rightarrow> 'v object \<Rightarrow> 'v object" where
  "obj_set key v [] = [(key, v)]"
| "obj_set key v (p # ps) = (if fst p = key then (key, v) # ps else p # obj_set key v ps)"

definition obj_get :: "'v object \<Rightarrow> string \<Rightarrow> 'v option" where
  "obj_get obj key = map_of obj key"

definition obj_delete :: "string \<Rightarrow> 'v object \<Rightarrow> 'v object" where
  "obj_delete key obj = filter (\<lambda>p. fst p \<noteq> key) obj"

subsection \<open>The registry\<close>

text \<open>
  Modelled from the spec: \<open>Registry\<close> of @textbus/core, which "resolves a formatting
  attribute by name (inline formatting encode/decode) and a component factory by name
  (materialization)". A formatter, an attribute and a component factory stand for their
  names; the registry holds the names it knows.
\<close>

record registry =
  formatterNames :: "string list"
  attributeNames :: "string list"
  componentNames :: "string list"

definition getFormatter :: "registry \<Rightarrow> string \<Rightarrow> string option" where
  "getFormatter reg key = (if key \<in> set (formatterNames reg) then Some key else None)"

definition getAttribute :: "registry \<Rightarrow> string \<Rightarrow> string option" where
  "getAttribute reg key = (if key \<in> set (attributeNames reg) then Some key else None)"

subsection \<open>The local document model\<close>

text \<open>
  Modelled from the spec: \<open>Slot\<close>, \<open>MapModel\<close>, \<open>ArrayModel\<close> and \<open>Component\<close> of
  @textbus/core. A slot is an "ordered sequence of content units (characters or embedded
  component references) with per-range formatting and slot-level attributes" that "exposes
  a cursor index"; a component is a "named unit holding one state map". The content of a
  slot is held as the runs that \<open>toDelta()\<close> returns, each \<open>{insert, formats}\<close> with
  \<open>insert\<close> a string or a component and \<open>formats\<close> a list of \<open>[formatter, value]\<close> pairs
  (absent when \<open>None\<close>). \<open>lmodel\<close> is what \<open>instanceof\<close> tells apart.
\<close>

type_synonym formats = "jsvalue object"

datatype lmodel = OfMap mapmodel | OfArray arraymodel | OfSlot slot | Plain jsvalue
  and mapmodel = MapModel "(string \<times> lmodel) list"
  and arraymodel = ArrayModel "lmodel list"
  and slot =
    Slot (slot_schema: "jsvalue list")
      (slot_content: "((string + component) \<times> formats option) list")
      (slot_attributes: "jsvalue object")
      (slot_index: nat)
  and component = Component (component_name: string) (component_state: mapmodel)

text \<open>
  Modelled from the spec: the length of a content, \<open>i.insert.length\<close>, is the length of
  a string and 1 for a component, which is one content unit.
\<close>

definition insert_length :: "string + 'c \<Rightarrow> nat" where
  "insert_length i = (case i of Inl s \<Rightarrow> length s | Inr c \<Rightarrow> 1)"

definition slot_length :: "slot \<Rightarrow> nat" where
  "slot_length s = sum_list (map (\<lambda>r. insert_length (fst r)) (slot_content s))"

text \<open>
  Modelled from the spec: the runs of a slot before and after an offset counted in content
  units.
\<close>

fun take_content :: "nat \<Rightarrow> ((string + 'c) \<times> 'f) list \<Rightarrow> ((string + 'c) \<times> 'f) list" where
  "take_content n [] = []"
| "take_content n ((Inl s, f) # rs) =
     (if n = 0 then []
      else if n < length s then [(Inl (take n s), f)]
      else (Inl s, f) # take_content (n - length s) rs)"
| "take_content n ((Inr c, f) # rs) =
     (if n = 0 then [] else (Inr c, f) # take_content (n - 1) rs)"

fun drop_content :: "nat \<Rightarrow> ((string + 'c) \<times> 'f) list \<Rightarrow> ((string + 'c) \<times> 'f) list" where
  "drop_content n [] = []"
| "drop_content n ((Inl s, f) # rs) =
     (if n = 0 then (Inl s, f) # rs
      else if n < length s then (Inl (drop n s), f) # rs
      else drop_content (n - length s) rs)"
| "drop_content n ((Inr c, f) # rs) =
     (if n = 0 then (Inr c, f) # rs else drop_content (n - 1) rs)"

text \<open>
  Modelled from the spec: the operations of \<open>Slot\<close>, "retain(offset[,formats]),
  insert(content[,formats]), delete(count), attrSet(name,value), attrDelete(name)".
  \<open>retain(offset)\<close> moves the cursor (inside the content); \<open>retain(offset, formats)\<close>
  formats the next \<open>offset\<close> units and leaves the cursor; \<open>insert(content, formats)\<close>
  writes at the cursor and moves it behind the new content; \<open>delete(count)\<close> removes
  the next \<open>count\<close> units; \<open>setAttribute\<close> and \<open>removeAttribute\<close> write the attributes.
\<close>

definition slot_retain :: "nat \<Rightarrow> slot \<Rightarrow> slot" where
  "slot_retain offset s =
     Slot (slot_schema s) (slot_content s) (slot_attributes s) (min offset (slot_length s))"

definition apply_formats :: "formats \<Rightarrow> formats option \<Rightarrow> formats option" where
  "apply_formats fs old =
     Some (foldl (\<lambda>acc f. obj_set (fst f) (snd f) acc)
       (case old of None \<Rightarrow> [] | Some obj \<Rightarrow> obj) fs)"

definition slot_retain_formats :: "nat \<Rightarrow> formats \<Rightarrow> slot \<Rightarrow> slot" where
  "slot_retain_formats offset fs s =
     (let rest = drop_content (slot_index s) (slot_content s)
      in Slot (slot_schema s)
           (take_content (slot_index s) (slot_content s) @
            map (\<lambda>r. (fst r, apply_formats fs (snd r))) (take_content offset rest) @
            drop_content offset rest)
           (slot_attributes s) (slot_index s))"

definition slot_insert :: "string + component \<Rightarrow> formats \<Rightarrow> slot \<Rightarrow> slot" where
  "slot_insert c fs s =
     Slot (slot_schema s)
       (take_content (slot_index s) (slot_content s) @ [(c, Some fs)] @
        drop_content (slot_index s) (slot_content s))
       (slot_attributes s) (slot_index s + insert_length c)"

definition slot_delete :: "nat \<Rightarrow> slot \<Rightarrow> slot" where
  "slot_delete count s =
     Slot (slot_schema s)
       (take_content (slot_index s) (slot_content s) @
        drop_content (slot_index s + count) (slot_content s))
       (slot_attributes s) (slot_index s)"

definition slot_setAttribute :: "string \<Rightarrow> jsvalue \<Rightarrow> slot \<Rightarrow> slot" where
  "slot_setAttribute a v s =
     Slot (slot_schema s) (slot_content s) (obj_set a v (slot_attributes s)) (slot_index s)"

definition slot_removeAttribute :: "string \<Rightarrow> slot \<Rightarrow> slot" where
  "slot_removeAttribute a s =
     Slot (slot_schema s) (slot_content s) (obj_delete a (slot_attributes s)) (slot_index s)"

text \<open>
  Modelled from the spec: \<open>Slot.emptyPlaceholder\<close> of @textbus/core, the content of an
  empty slot. The spec does not name the character; it is taken to be the line feed that
  the delete branch of \<open>syncSlot\<close> writes in the same role (the literal \<open>'\n'\<close>).
\<close>

definition emptyPlaceholder :: string where
  "emptyPlaceholder = [CHR 0x0A]"

subsection \<open>The shared document\<close>

text \<open>
  Modelled from the spec: the Shared Document, "replicated containers - map, ordered
  sequence, attributed text", which is the library yjs and not code of this repository.
  The containers are what the engine sees through their interface:
  \<open>Y.Map\<close>, \<open>Y.Array\<close>, \<open>Y.Text\<close> and any other value. A \<open>Y.Text\<close> is its attributes
  (\<open>getAttributes()\<close>) and its delta (\<open>toDelta()\<close>); an entry of a delta is
  \<open>{insert, attributes?}\<close>, \<open>{retain, attributes?}\<close> or \<open>{delete}\<close>, the shape of the
  entries of \<open>ev.delta\<close> too. An embedded value is any shared value: the engine casts it.
\<close>

datatype smodel = OfYMap ymap | OfYArray yarray | OfYText ytext | SPlain jsvalue
  and ymap = YMap "(string \<times> smodel) list"
  and yarray = YArray "smodel list"
  and ytext = YText (yattrs: "jsvalue object") (ydelta: "sdelta list")
  and sdelta =
    DInsert "string + smodel" "jsvalue object option"
  | DRetain nat "jsvalue object option"
  | DDelete nat

text \<open>
  Modelled from the spec (yjs): the content of a text, unit by unit, each unit with the
  attributes it carries, and \<open>toDelta()\<close>, which packs adjacent characters of equal attributes into one string and
  gives an entry with no attributes no \<open>attributes\<close> field.
\<close>

type_synonym yunit = "(char + smodel) \<times> jsvalue object"

definition attrs_of :: "jsvalue object option \<Rightarrow> jsvalue object" where
  "attrs_of a = (case a of None \<Rightarrow> [] | Some obj \<Rightarrow> obj)"

definition attrs_opt :: "jsvalue object \<Rightarrow> jsvalue object option" where
  "attrs_opt a = (if a = [] then None else Some a)"

fun y_units :: "sdelta list \<Rightarrow> yunit list" where
  "y_units [] = []"
| "y_units (DInsert (Inl s) a # ds) = map (\<lambda>c. (Inl c, attrs_of a)) s @ y_units ds"
| "y_units (DInsert (Inr m) a # ds) = (Inr m, attrs_of a) # y_units ds"
| "y_units (DRetain n a # ds) = y_units ds"
| "y_units (DDelete n # ds) = y_units ds"

fun y_toDelta :: "yunit list \<Rightarrow> sdelta list" where
  "y_toDelta [] = []"
| "y_toDelta ((Inr m, a) # us) = DInsert (Inr m) (attrs_opt a) # y_toDelta us"
| "y_toDelta ((Inl c, a) # us) =
     (case y_toDelta us of
        DInsert (Inl s) b # ds \<Rightarrow>
          if b = attrs_opt a then DInsert (Inl (c # s)) b # ds
          else DInsert (Inl [c]) (attrs_opt a) # DInsert (Inl s) b # ds
      | ds \<Rightarrow> DInsert (Inl [c]) (attrs_opt a) # ds)"

text \<open>
  Modelled from the spec (yjs): the operations of an attributed text.
  \<open>insert(index, text, attributes)\<close> does nothing for an empty text; with no attributes
  object the text takes the attributes in force at the index, those of the unit before
  it; an attribute given as null is no attribute. \<open>insertEmbed\<close> reads absent attributes
  as \<open>{}\<close>. An index behind the end is the end. \<open>format(index, length, attributes)\<close> sets
  the attributes on a range, null removing one.
\<close>

definition current_attributes :: "nat \<Rightarrow> yunit list \<Rightarrow> jsvalue object" where
  "current_attributes i us =
     (if i = 0 \<or> us = [] then [] else snd (us ! (min i (length us) - 1)))"

definition given_attributes :: "jsvalue object \<Rightarrow> jsvalue object" where
  "given_attributes obj = filter (\<lambda>p. snd p \<noteq> JNull) obj"

definition merge_attributes :: "jsvalue object \<Rightarrow> jsvalue object \<Rightarrow> jsvalue object" where
  "merge_attributes new old =
     foldl (\<lambda>acc p. if snd p = JNull then obj_delete (fst p) acc else obj_set (fst p) (snd p) acc)
       old new"

definition y_insert ::
  "nat \<Rightarrow> string \<Rightarrow> jsvalue object option \<Rightarrow> sdelta list \<Rightarrow> sdelta list" where
  "y_insert i text a d =
     (if text = [] then d
      else
        let us = y_units d;
            at = (case a of
                    None \<Rightarrow> current_attributes i us
                  | Some obj \<Rightarrow> given_attributes obj)
        in y_toDelta (take i us @ map (\<lambda>c. (Inl c, at)) text @ drop i us))"

definition y_insertEmbed ::
  "nat \<Rightarrow> smodel \<Rightarrow> jsvalue object option \<Rightarrow> sdelta list \<Rightarrow> sdelta list" where
  "y_insertEmbed i emb a d =
     (let us = y_units d;
          at = (case a of None \<Rightarrow> [] | Some obj \<Rightarrow> given_attributes obj)
      in y_toDelta (take i us @ [(Inr emb, at)] @ drop i us))"

definition y_delete :: "nat \<Rightarrow> nat \<Rightarrow> sdelta list \<Rightarrow> sdelta list" where
  "y_delete i n d = (let us = y_units d in y_toDelta (take i us @ drop (i + n) us))"

definition y_format :: "nat \<Rightarrow> nat \<Rightarrow> jsvalue object \<Rightarrow> sdelta list \<Rightarrow> sdelta list" where
  "y_format i n a d =
     (let us = y_units d
      in y_toDelta
           (take i us @
            map (\<lambda>u. (fst u, merge_attributes a (snd u))) (take n (drop i us)) @
            drop (i + n) us))"

definition ytext_length :: "ytext \<Rightarrow> nat" where
  "ytext_length t = length (y_units (ydelta t))"

definition ytext_insert :: "nat \<Rightarrow> string \<Rightarrow> jsvalue object option \<Rightarrow> ytext \<Rightarrow> ytext" where
  "ytext_insert i text a t = YText (yattrs t) (y_insert i text a (ydelta t))"

definition ytext_insertEmbed ::
  "nat \<Rightarrow> smodel \<Rightarrow> jsvalue object option \<Rightarrow> ytext \<Rightarrow> ytext" where
  "ytext_insertEmbed i emb a t = YText (yattrs t) (y_insertEmbed i emb a (ydelta t))"

definition ytext_delete :: "nat \<Rightarrow> nat \<Rightarrow> ytext \<Rightarrow> ytext" where
  "ytext_delete i n t = YText (yattrs t) (y_delete i n (ydelta t))"

definition ytext_format :: "nat \<Rightarrow> nat \<Rightarrow> jsvalue object \<Rightarrow> ytext \<Rightarrow> ytext" where
  "ytext_format i n a t = YText (yattrs t) (y_format i n a (ydelta t))"

definition ytext_setAttribute :: "string \<Rightarrow> jsvalue \<Rightarrow> ytext \<Rightarrow> ytext" where
  "ytext_setAttribute key v t = YText (obj_set key v (yattrs t)) (ydelta t)"

definition ytext_removeAttribute :: "string \<Rightarrow> ytext \<Rightarrow> ytext" where
  "ytext_removeAttribute key t = YText (obj_delete key (yattrs t)) (ydelta t)"

subsection \<open>The tree materializer: local to shared\<close>

text \<open>
  \<open>createSharedModelByLocalModel\<close> dispatches on \<open>instanceof\<close>;
  \<open>createSharedMapByLocalMap\<close> and \<open>createSharedArrayByLocalArray\<close> fill a new container
  with \<open>forEach\<close>. The observers that \<open>syncObject\<close>, \<open>syncArray\<close> and \<open>syncSlot\<close>
  register are not part of the value returned.
  \<^verbatim>\<open>
  private createSharedSlotByLocalSlot(localSlot: Slot): YText {
    const sharedSlot = new YText()
    sharedSlot.setAttribute('__schema__', [...localSlot.schema])
    let offset = 0
    localSlot.toDelta().forEach(i => {
      let formats: any = {}
      if (i.formats) {
        i.formats.forEach(item => { formats[item[0].name] = item[1] })
      } else {
        formats = null
      }
      if (typeof i.insert === 'string') {
        sharedSlot.insert(offset, i.insert, formats)
      } else {
        const sharedComponent = this.createSharedComponentByLocalComponent(i.insert)
        sharedSlot.insertEmbed(offset, sharedComponent, formats)
      }
      offset += i.insert.length
    })
    localSlot.getAttributes().forEach(item => {
      sharedSlot.setAttribute(item[0].name, item[1])
    })
    this.syncSlot(sharedSlot, localSlot)
    return sharedSlot
  }
  private createSharedComponentByLocalComponent(component: Component): YMap<any> {
    const sharedComponent = new YMap()
    const sharedState = this.createSharedMapByLocalMap(component.state, component)
    sharedComponent.set('name', component.name)
    sharedComponent.set('state', sharedState)
    return sharedComponent
  }
  \<close>
\<close>

fun createSharedModelByLocalModel :: "lmodel \<Rightarrow> smodel"
  and createSharedMapByLocalMap :: "mapmodel \<Rightarrow> ymap"
  and createSharedArrayByLocalArray :: "arraymodel \<Rightarrow> yarray"
  and createSharedSlotByLocalSlot :: "slot \<Rightarrow> ytext"
  and createSharedComponentByLocalComponent :: "component \<Rightarrow> ymap"
where
  "createSharedModelByLocalModel (OfMap m) = OfYMap (createSharedMapByLocalMap m)"
| "createSharedModelByLocalModel (OfArray a) = OfYArray (createSharedArrayByLocalArray a)"
| "createSharedModelByLocalModel (OfSlot s) = OfYText (createSharedSlotByLocalSlot s)"
| "createSharedModelByLocalModel (Plain v) = SPlain v"
| "createSharedMapByLocalMap (MapModel entries) =
     YMap (foldl (\<lambda>sharedMap kv.
             obj_set (fst kv) (createSharedModelByLocalModel (snd kv)) sharedMap) [] entries)"
| "createSharedArrayByLocalArray (ArrayModel items) =
     YArray (foldl (\<lambda>sharedArray v. sharedArray @ [createSharedModelByLocalModel v]) [] items)"
| "createSharedSlotByLocalSlot (Slot sch delta attrs idx) =
     (let sharedSlot = ytext_setAttribute ''__schema__'' (JArr sch) (YText [] []);
          inserted =
            foldl (\<lambda>acc i.
              let formats =
                    (case snd i of
                       Some fs \<Rightarrow>
                         Some (foldl (\<lambda>obj item. obj_set (fst item) (snd item) obj) [] fs)
                     | None \<Rightarrow> None)
              in ((case fst i of
                     Inl s \<Rightarrow> ytext_insert (snd acc) s formats (fst acc)
                   | Inr c \<Rightarrow>
                       ytext_insertEmbed (snd acc)
                         (OfYMap (createSharedComponentByLocalComponent c)) formats (fst acc)),
                  snd acc + insert_length (fst i)))
              (sharedSlot, 0) delta
      in foldl (\<lambda>t item. ytext_setAttribute (fst item) (snd item) t) (fst inserted) attrs)"
| "createSharedComponentByLocalComponent (Component nm st) =
     YMap (obj_set ''state'' (OfYMap (createSharedMapByLocalMap st))
            (obj_set ''name'' (SPlain (JStr nm)) []))"

subsection \<open>The tree materializer: shared to local\<close>

text \<open>
  \<^verbatim>\<open>
  function remoteFormatsToLocal(registry: Registry, attrs?: any,) {
    const formats: Formats = []
    if (attrs) {
      Object.keys(attrs).forEach(key => {
        const formatter = registry.getFormatter(key)
        if (formatter) {
          formats.push([formatter, attrs[key]])
        }
      })
    }
    return formats
  }
  \<close>
\<close>

definition remoteFormatsToLocal :: "registry \<Rightarrow> jsvalue object option \<Rightarrow> formats" where
  "remoteFormatsToLocal reg attrs =
     (case attrs of
        None \<Rightarrow> []
      | Some obj \<Rightarrow>
          foldl (\<lambda>formats p.
            case getFormatter reg (fst p) of
              Some formatter \<Rightarrow> formats @ [(formatter, snd p)]
            | None \<Rightarrow> formats) [] obj)"

text \<open>
  What the engine asks of the \<open>insert\<close> field of a delta entry, which holds a text or an
  embedded value. \<open>if (action.insert)\<close> asks for its truthiness: \<open>null\<close>, \<open>false\<close>, \<open>0\<close> and
  the empty string are falsy, every object (a shared container, an array) is truthy.
  \<open>typeof action.insert === 'string'\<close> holds of a text, and of an embedded value that is a
  string. \<open>action.insert as YMap<any>\<close> is the value itself.
\<close>

definition truthy :: "jsvalue \<Rightarrow> bool" where
  "truthy v =
     (case v of
        JNull \<Rightarrow> False
      | JBool b \<Rightarrow> b
      | JNum n \<Rightarrow> n \<noteq> 0
      | JStr s \<Rightarrow> s \<noteq> []
      | JArr xs \<Rightarrow> True)"

definition insert_truthy :: "string + smodel \<Rightarrow> bool" where
  "insert_truthy ins =
     (case ins of
        Inl s \<Rightarrow> s \<noteq> []
      | Inr (SPlain v) \<Rightarrow> truthy v
      | Inr m \<Rightarrow> True)"

definition insert_string :: "string + smodel \<Rightarrow> string option" where
  "insert_string ins =
     (case ins of
        Inl s \<Rightarrow> Some s
      | Inr (SPlain (JStr s)) \<Rightarrow> Some s
      | Inr m \<Rightarrow> None)"

definition insert_embedded :: "string + smodel \<Rightarrow> smodel" where
  "insert_embedded ins = (case ins of Inl s \<Rightarrow> SPlain (JStr s) | Inr m \<Rightarrow> m)"

lemma insert_embedded_Inr:
  assumes "insert_string ins = None"
  shows "\<exists>m. ins = Inr m \<and> insert_embedded ins = m"
  using assms by (cases ins) (simp_all add: insert_string_def insert_embedded_def)

lemma size_obj_get:
  assumes "obj_get entries key = Some v"
  shows "size v < Suc (size_list (size_prod (\<lambda>x. 0) size) entries)"
proof -
  from assms have "(key, v) \<in> set entries"
    by (simp add: obj_get_def map_of_SomeD)
  then show ?thesis
    by (induction entries) auto
qed

text \<open>
  \<^verbatim>\<open>
  private createLocalSlotBySharedSlot(sharedSlot: YText): Slot {
    const delta = sharedSlot.toDelta()
    const localSlot = new Slot(sharedSlot.getAttribute('__schema__') || [])
    const attrs = sharedSlot.getAttributes()
    Object.keys(attrs).forEach(key => {
      const attribute = this.registry.getAttribute(key)
      if (attribute) {
        localSlot.setAttribute(attribute, attrs[key])
      }
    })
    for (const action of delta) {
      if (action.insert) {
        if (typeof action.insert === 'string') {
          const formats = remoteFormatsToLocal(this.registry, action.attributes)
          localSlot.insert(action.insert, formats)
        } else {
          const sharedComponent = action.insert as YMap<any>
          const component = this.createLocalComponentBySharedComponent(sharedComponent)
          localSlot.insert(component, remoteFormatsToLocal(this.registry, action.attributes))
        }
      } else {
        throw collaborateErrorFn('unexpected delta action.')
      }
    }
    this.syncSlot(sharedSlot, localSlot)
    return localSlot
  }
  private createLocalComponentBySharedComponent(yMap: YMap<any>): Component {
    const componentName = yMap.get('name') as string
    const sharedState = yMap.get('state') as YMap<any>
    const instance = this.registry.createComponentByData(componentName,
      (component: Component<any>) => {
        return this.createLocalMapBySharedMap(sharedState, component)
      })
    if (instance) {
      return instance
    }
    throw collaborateErrorFn(`cannot find component factory \`${componentName}\`.`)
  }
  \<close>
  \<open>if (action.insert)\<close> tests truthiness: the empty string and an embedded \<open>0\<close>, \<open>false\<close>
  or \<open>null\<close> are falsy, an object is truthy; an entry with no \<open>insert\<close> field has
  \<open>undefined\<close> there. A schema attribute that is not an array is outside the type of a
  schema and reads as no schema.

  Modelled from the spec: \<open>Registry.createComponentByData\<close> of @textbus/core, for which
  "reconstruction looks up a registered factory by name and fails with a construction error
  if absent": a registered name gives the component of that name whose state is what the
  callback returns, any other gives null. Of the values that are cast to \<open>YMap\<close>
  and are none, a \<open>Y.Array\<close> has a \<open>get\<close> that finds no name, and the others have no
  \<open>get\<close> to call: a TypeError.
\<close>

function (sequential) createLocalModelBySharedByModel :: "registry \<Rightarrow> smodel \<Rightarrow> error + lmodel"
  and createLocalMapBySharedMap :: "registry \<Rightarrow> ymap \<Rightarrow> error + mapmodel"
  and createLocalArrayBySharedArray :: "registry \<Rightarrow> yarray \<Rightarrow> error + arraymodel"
  and createLocalSlotBySharedSlot :: "registry \<Rightarrow> ytext \<Rightarrow> error + slot"
  and createLocalComponentBySharedComponent :: "registry \<Rightarrow> smodel \<Rightarrow> error + component"
where
  "createLocalModelBySharedByModel reg (OfYMap m) =
     (case createLocalMapBySharedMap reg m of Inl e \<Rightarrow> Inl e | Inr l \<Rightarrow> Inr (OfMap l))"
| "createLocalModelBySharedByModel reg (OfYArray a) =
     (case createLocalArrayBySharedArray reg a of Inl e \<Rightarrow> Inl e | Inr l \<Rightarrow> Inr (OfArray l))"
| "createLocalModelBySharedByModel reg (OfYText t) =
     (case createLocalSlotBySharedSlot reg t of Inl e \<Rightarrow> Inl e | Inr l \<Rightarrow> Inr (OfSlot l))"
| "createLocalModelBySharedByModel reg (SPlain v) = Inr (Plain v)"
| "createLocalMapBySharedMap reg (YMap entries) =
     (case foldl (\<lambda>acc kv.
             case acc of
               Inl e \<Rightarrow> Inl e
             | Inr localMap \<Rightarrow>
                 (case createLocalModelBySharedByModel reg (snd kv) of
                    Inl e \<Rightarrow> Inl e
                  | Inr v \<Rightarrow> Inr (obj_set (fst kv) v localMap)))
            (Inr []) entries of
        Inl e \<Rightarrow> Inl e
      | Inr localMap \<Rightarrow> Inr (MapModel localMap))"
| "createLocalArrayBySharedArray reg (YArray items) =
     (case foldl (\<lambda>acc item.
             case acc of
               Inl e \<Rightarrow> Inl e
             | Inr localArray \<Rightarrow>
                 (case createLocalModelBySharedByModel reg item of
                    Inl e \<Rightarrow> Inl e
                  | Inr v \<Rightarrow> Inr (localArray @ [v])))
            (Inr []) items of
        Inl e \<Rightarrow> Inl e
      | Inr localArray \<Rightarrow> Inr (ArrayModel localArray))"
| "createLocalSlotBySharedSlot reg (YText attrs delta) =
     (let localSlot =
            Slot (case obj_get attrs ''__schema__'' of Some (JArr xs) \<Rightarrow> xs | _ \<Rightarrow> []) [] [] 0;
          localSlot1 =
            foldl (\<lambda>sl p.
              case getAttribute reg (fst p) of
                Some attribute \<Rightarrow> slot_setAttribute attribute (snd p) sl
              | None \<Rightarrow> sl) localSlot attrs
      in foldl (\<lambda>acc action.
           case acc of
             Inl e \<Rightarrow> Inl e
           | Inr sl \<Rightarrow>
               (case action of
                  DInsert ins a \<Rightarrow>
                    if insert_truthy ins then
                      (case insert_string ins of
                         Some s \<Rightarrow> Inr (slot_insert (Inl s) (remoteFormatsToLocal reg a) sl)
                       | None \<Rightarrow>
                           (case createLocalComponentBySharedComponent reg (insert_embedded ins) of
                              Inl e \<Rightarrow> Inl e
                            | Inr c \<Rightarrow>
                                Inr (slot_insert (Inr c) (remoteFormatsToLocal reg a) sl)))
                    else Inl UnexpectedDeltaAction
                | DRetain n a \<Rightarrow> Inl UnexpectedDeltaAction
                | DDelete n \<Rightarrow> Inl UnexpectedDeltaAction))
           (Inr localSlot1) delta)"
| "createLocalComponentBySharedComponent reg (OfYMap (YMap entries)) =
     (case obj_get entries ''name'' of
        Some (SPlain (JStr componentName)) \<Rightarrow>
          if componentName \<in> set (componentNames reg) then
            (case obj_get entries ''state'' of
               Some (OfYMap sharedState) \<Rightarrow>
                 (case createLocalMapBySharedMap reg sharedState of
                    Inl e \<Rightarrow> Inl e
                  | Inr st \<Rightarrow> Inr (Component componentName st))
             | _ \<Rightarrow> Inl TypeError)
          else Inl CannotFindComponentFactory
      | _ \<Rightarrow> Inl CannotFindComponentFactory)"
| "createLocalComponentBySharedComponent reg (OfYArray a) = Inl CannotFindComponentFactory"
| "createLocalComponentBySharedComponent reg (OfYText t) = Inl TypeError"
| "createLocalComponentBySharedComponent reg (SPlain v) = Inl TypeError"
  by pat_completeness auto

termination
  by (relation "measure (case_sum
        (case_sum (\<lambda>p. size (snd p)) (\<lambda>p. size (snd p)))
        (case_sum (\<lambda>p. size (snd p)) (case_sum (\<lambda>p. size (snd p)) (\<lambda>p. size (snd p)))))")
    (auto dest: size_obj_get dest!: insert_embedded_Inr
      simp add: less_Suc_eq_le size_list_estimation')

subsection \<open>The selection\<close>

text \<open>
  Modelled from the spec: \<open>Selection\<close> of @textbus/core, the collaborator that gives the
  "current anchor/focus, change notifications, and endpoint mutators". A slot is named by
  its identity; \<open>isSelected\<close> holds when both endpoints are set. \<open>startOffset\<close> is the
  offset of the endpoint that comes first in the document: in one slot the smaller offset,
  in two slots the offset of the endpoint whose slot comes first (\<open>anchorFirst\<close>).

  The spec names the endpoint mutators and says no more of them; they are modelled as the
  library has them. \<open>setAnchor(slot, offset)\<close> and \<open>setFocus(slot, offset)\<close> place the
  cursor of the slot at the offset, by \<open>slot.retain(offset)\<close>, which keeps the cursor inside
  the content (an offset below 0 is 0, an offset behind the end is the end), and the
  endpoint is then the slot with the offset of its cursor. A mutator so returns the slot
  too, its cursor moved.
\<close>

record selection =
  anchorSlot :: "nat option"
  anchorOffset :: int
  focusSlot :: "nat option"
  focusOffset :: int
  anchorFirst :: bool

definition isSelected :: "selection \<Rightarrow> bool" where
  "isSelected sel = (anchorSlot sel \<noteq> None \<and> focusSlot sel \<noteq> None)"

definition startOffset :: "selection \<Rightarrow> int" where
  "startOffset sel =
     (if anchorSlot sel = focusSlot sel then min (anchorOffset sel) (focusOffset sel)
      else if anchorFirst sel then anchorOffset sel
      else focusOffset sel)"

definition setAnchor :: "nat \<Rightarrow> slot \<Rightarrow> int \<Rightarrow> selection \<Rightarrow> slot \<times> selection" where
  "setAnchor slot_id sl offset sel =
     (let sl1 = slot_retain (nat offset) sl
      in (sl1, sel\<lparr>anchorSlot := Some slot_id, anchorOffset := int (slot_index sl1)\<rparr>))"

definition setFocus :: "nat \<Rightarrow> slot \<Rightarrow> int \<Rightarrow> selection \<Rightarrow> slot \<times> selection" where
  "setFocus slot_id sl offset sel =
     (let sl1 = slot_retain (nat offset) sl
      in (sl1, sel\<lparr>focusSlot := Some slot_id, focusOffset := int (slot_index sl1)\<rparr>))"

subsection \<open>Transaction origins\<close>

text \<open>
  \<open>tr.origin\<close> is compared by identity with \<open>this.yDoc\<close> (the local-origin token) and with
  \<open>this.manager\<close> (the undo manager, the origin of a history replay); it is otherwise some
  other object: \<open>this.noRecord\<close>, a network provider, \<open>null\<close>.
\<close>

datatype origin = YDocOrigin | ManagerOrigin | NoRecordOrigin | OtherOrigin nat

subsection \<open>State of the engine\<close>

text \<open>\<open>interface UpdateItem { record: boolean; action(): void }\<close>\<close>

record 'a UpdateItem =
  i_record :: bool
  i_action :: 'a

text \<open>\<open>interface Update { record: boolean; actions: Array<() => void> }\<close>\<close>

record 'a Update =
  u_record :: bool
  u_actions :: "'a list"

text \<open>\<open>interface CollaborateHistorySelectionPosition\<close>\<close>

record 'p HistorySelectionPosition =
  before :: "'p option"
  after :: "'p option"

text \<open>
  What the engine does to its collaborators, in the order it does it: a transaction on the
  shared document (\<open>yDoc.transact(fn, origin)\<close>, with the queued closures it runs), a
  scoped execution by the scheduler, and the \<open>next()\<close> of one of the subjects.
\<close>

datatype scope = HistoryApply | RemoteUpdate

datatype signal = LocalChangesApplied | PushEvent | ChangeEvent

datatype 'a effect = Transact origin "'a list" | Scoped scope | Fired signal

text \<open>
  The fields of \<open>Collaborate\<close> (\<open>undoStack\<close> and \<open>redoStack\<close> are those of
  \<open>this.manager\<close>). \<open>'a\<close> is the type of the queued closures, \<open>'p\<close> of cursor
  positions, \<open>'n\<close> of the undo manager's stack items. An array element is an \<open>option\<close>:
  \<open>None\<close> is the hole that \<open>array.length = n\<close> leaves when it lengthens an array.
\<close>

record ('a, 'p, 'n) collaborate =
  stackSize :: int
  updateFromRemote :: bool
  updateRemoteActions :: "'a UpdateItem list"
  historyItems :: "'p HistorySelectionPosition option list"
  index :: int
  undoStack :: "'n list"
  redoStack :: "'n list"
  selection :: selection
  effects :: "'a effect list"

definition emit :: "'a effect \<Rightarrow> ('a, 'p, 'n, 'z) collaborate_scheme \<Rightarrow> ('a, 'p, 'n, 'z) collaborate_scheme" where
  "emit e s = s\<lparr>effects := effects s @ [e]\<rparr>"

subsection \<open>runLocalUpdate and runRemoteUpdate\<close>

text \<open>
  \<^verbatim>\<open>
  private runLocalUpdate(fn: () => void, record = true) {
    if (this.updateFromRemote) {
      return
    }
    this.updateRemoteActions.push({ record, action: fn })
  }
  \<close>
\<close>

definition runLocalUpdate ::
  "'a \<Rightarrow> bool \<Rightarrow> ('a, 'p, 'n, 'z) collaborate_scheme \<Rightarrow> ('a, 'p, 'n, 'z) collaborate_scheme" where
  "runLocalUpdate fn rec s =
     (if updateFromRemote s then s
      else s\<lparr>updateRemoteActions :=
        updateRemoteActions s @ [\<lparr>i_record = rec, i_action = fn\<rparr>]\<rparr>)"

text \<open>Every call site writes \<open>this.runLocalUpdate(() => {...})\<close>: the default \<open>record = true\<close>.\<close>

definition runLocalUpdate_default ::
  "'a \<Rightarrow> ('a, 'p, 'n, 'z) collaborate_scheme \<Rightarrow> ('a, 'p, 'n, 'z) collaborate_scheme" where
  "runLocalUpdate_default fn s = runLocalUpdate fn True s"

text \<open>
  Modelled from the spec: \<open>Scheduler.historyApplyTransact\<close> and
  \<open>Scheduler.remoteUpdateTransact\<close> of @textbus/core, the "scoped-execution helpers for
  tagging history-replay vs remote-replay execution": each runs the callback, tagged.
\<close>

definition historyApplyTransact ::
  "(('a, 'p, 'n, 'z) collaborate_scheme \<Rightarrow> error + ('a, 'p, 'n, 'z) collaborate_scheme) \<Rightarrow>
   ('a, 'p, 'n, 'z) collaborate_scheme \<Rightarrow> error + ('a, 'p, 'n, 'z) collaborate_scheme" where
  "historyApplyTransact fn s = fn (emit (Scoped HistoryApply) s)"

definition remoteUpdateTransact ::
  "(('a, 'p, 'n, 'z) collaborate_scheme \<Rightarrow> error + ('a, 'p, 'n, 'z) collaborate_scheme) \<Rightarrow>
   ('a, 'p, 'n, 'z) collaborate_scheme \<Rightarrow> error + ('a, 'p, 'n, 'z) collaborate_scheme" where
  "remoteUpdateTransact fn s = fn (emit (Scoped RemoteUpdate) s)"

text \<open>
  \<^verbatim>\<open>
  private runRemoteUpdate(tr: Transaction, fn: () => void) {
    if (tr.origin === this.yDoc) {
      return
    }
    this.updateFromRemote = true
    if (tr.origin === this.manager) {
      this.scheduler.historyApplyTransact(fn)
    } else {
      this.scheduler.remoteUpdateTransact(fn)
    }
    this.updateFromRemote = false
  }
  \<close>
  There is no \<open>try\<close>: an error thrown by \<open>fn\<close> leaves the method at once.
\<close>

definition runRemoteUpdate ::
  "origin \<Rightarrow> (('a, 'p, 'n, 'z) collaborate_scheme \<Rightarrow> error + ('a, 'p, 'n, 'z) collaborate_scheme) \<Rightarrow>
   ('a, 'p, 'n, 'z) collaborate_scheme \<Rightarrow> error + ('a, 'p, 'n, 'z) collaborate_scheme" where
  "runRemoteUpdate tr_origin fn s =
     (if tr_origin = YDocOrigin then Inr s
      else
        let s1 = s\<lparr>updateFromRemote := True\<rparr> in
        case (if tr_origin = ManagerOrigin then historyApplyTransact fn s1
              else remoteUpdateTransact fn s1) of
          Inl e \<Rightarrow> Inl e
        | Inr s2 \<Rightarrow> Inr (s2\<lparr>updateFromRemote := False\<rparr>))"

subsection \<open>The batching flush (the onDocChanged subscription of listen)\<close>

text \<open>
  \<^verbatim>\<open>
  for (const item of this.updateRemoteActions) {
    if (!update) {
      update = { record: item.record, actions: [] }
      updates.push(update)
    }
    if (update.record === item.record) {
      update.actions.push(item.action)
    } else {
      update = { record: item.record, actions: [item.action] }
      updates.push(update)
    }
  }
  \<close>
  \<open>update\<close> is always the last element of \<open>updates\<close> (or null while \<open>updates\<close> is empty).
\<close>

definition collect :: "'a Update list \<Rightarrow> 'a UpdateItem \<Rightarrow> 'a Update list" where
  "collect updates item =
     (let updates1 =
            (if updates = [] then [\<lparr>u_record = i_record item, u_actions = []\<rparr>] else updates);
          update = last updates1
      in if u_record update = i_record item
         then butlast updates1 @ [update\<lparr>u_actions := u_actions update @ [i_action item]\<rparr>]
         else updates1 @ [\<lparr>u_record = i_record item, u_actions = [i_action item]\<rparr>])"

definition collectUpdates :: "'a UpdateItem list \<Rightarrow> 'a Update list" where
  "collectUpdates items = foldl collect [] items"

text \<open>
  \<^verbatim>\<open>
  for (const item of updates) {
    this.yDoc.transact(() => { item.actions.forEach(fn => { fn() }) },
      item.record ? this.yDoc : this.noRecord)
  }
  \<close>
\<close>

definition transactOrigin :: "'a Update \<Rightarrow> origin" where
  "transactOrigin item = (if u_record item then YDocOrigin else NoRecordOrigin)"

definition transact :: "'a Update \<Rightarrow> 'a effect" where
  "transact item = Transact (transactOrigin item) (u_actions item)"

definition flush :: "('a, 'p, 'n, 'z) collaborate_scheme \<Rightarrow> ('a, 'p, 'n, 'z) collaborate_scheme" where
  "flush s =
     (let updates = collectUpdates (updateRemoteActions s);
          s1 = s\<lparr>updateRemoteActions := []\<rparr>;
          s2 = foldl (\<lambda>st item. emit (transact item) st) s1 updates
      in emit (Fired LocalChangesApplied) s2)"

text \<open>
  The subscription runs behind
  \<open>map(item => item.filter(i => i.from !== ChangeOrigin.Remote)), filter(item => item.length)\<close>.
\<close>

datatype ChangeOrigin = History | Local | Remote

definition onDocChanged ::
  "ChangeOrigin list \<Rightarrow> ('a, 'p, 'n, 'z) collaborate_scheme \<Rightarrow> ('a, 'p, 'n, 'z) collaborate_scheme" where
  "onDocChanged changes s =
     (if filter (\<lambda>from. from \<noteq> Remote) changes = [] then s else flush s)"

subsection \<open>History: the stack-item-added handler and clear\<close>

datatype stack_type = Undo | Redo

record stack_event =
  ev_type :: stack_type
  ev_origin :: origin

text \<open>
  \<open>array.length = n\<close>: a shorter length truncates, a longer one appends holes, a negative
  one throws a RangeError.
\<close>

definition set_length :: "int \<Rightarrow> 'x option list \<Rightarrow> error + 'x option list" where
  "set_length n xs =
     (if n < 0 then Inl RangeError
      else Inr (take (nat n) xs @ replicate (nat n - length xs) None))"

text \<open>
  \<^verbatim>\<open>
  manager.on('stack-item-added', (event: any) => {
    if (event.type === 'undo') {
      if (event.origin === manager) {
        this.index++
      } else {
        this.historyItems.length = this.index
        this.historyItems.push({ before: beforePosition, after: this.getRelativeCursorLocation() })
        this.index++
      }
    } else {
      this.index--
    }
    if (manager.undoStack.length > this.stackSize) {
      this.historyItems.shift()
      manager.undoStack.shift()
    }
    if (event.origin === this.yDoc) {
      this.pushEvent.next()
    }
    this.changeEvent.next()
  })
  \<close>
  \<open>beforePosition\<close> and the value of \<open>getRelativeCursorLocation()\<close> are arguments.
\<close>

definition record_entry ::
  "stack_event \<Rightarrow> 'p option \<Rightarrow> 'p option \<Rightarrow> ('a, 'p, 'n, 'z) collaborate_scheme \<Rightarrow>
   error + ('a, 'p, 'n, 'z) collaborate_scheme" where
  "record_entry event beforePosition cursor s =
     (if ev_type event = Undo then
        (if ev_origin event = ManagerOrigin then Inr (s\<lparr>index := index s + 1\<rparr>)
         else
           case set_length (index s) (historyItems s) of
             Inl e \<Rightarrow> Inl e
           | Inr items \<Rightarrow>
               Inr (s\<lparr>historyItems := items @ [Some \<lparr>before = beforePosition, after = cursor\<rparr>],
                      index := index s + 1\<rparr>))
      else Inr (s\<lparr>index := index s - 1\<rparr>))"

definition evict :: "('a, 'p, 'n, 'z) collaborate_scheme \<Rightarrow> ('a, 'p, 'n, 'z) collaborate_scheme" where
  "evict s =
     (if int (length (undoStack s)) > stackSize s
      then s\<lparr>historyItems := drop 1 (historyItems s), undoStack := drop 1 (undoStack s)\<rparr>
      else s)"

definition stack_item_added ::
  "stack_event \<Rightarrow> 'p option \<Rightarrow> 'p option \<Rightarrow> ('a, 'p, 'n, 'z) collaborate_scheme \<Rightarrow>
   error + ('a, 'p, 'n, 'z) collaborate_scheme" where
  "stack_item_added event beforePosition cursor s =
     (case record_entry event beforePosition cursor s of
        Inl e \<Rightarrow> Inl e
      | Inr s1 \<Rightarrow>
          let s2 = evict s1;
              s3 = (if ev_origin event = YDocOrigin then emit (Fired PushEvent) s2 else s2)
          in Inr (emit (Fired ChangeEvent) s3))"

text \<open>
  The undo manager of yjs pushes the new stack item on the stack named by the event's type
  and then emits \<open>stack-item-added\<close>. An undoable edit is a transaction of origin
  \<open>this.yDoc\<close> (the only tracked origin) that adds an item to the undo stack.
\<close>

definition manager_add ::
  "stack_event \<Rightarrow> 'n \<Rightarrow> 'p option \<Rightarrow> 'p option \<Rightarrow> ('a, 'p, 'n, 'z) collaborate_scheme \<Rightarrow>
   error + ('a, 'p, 'n, 'z) collaborate_scheme" where
  "manager_add event stackItem beforePosition cursor s =
     stack_item_added event beforePosition cursor
       (if ev_type event = Undo then s\<lparr>undoStack := undoStack s @ [stackItem]\<rparr>
        else s\<lparr>redoStack := redoStack s @ [stackItem]\<rparr>)"

definition undoable_edit ::
  "'n \<times> 'p \<Rightarrow> error + ('a, 'p, 'n, 'z) collaborate_scheme \<Rightarrow> error + ('a, 'p, 'n, 'z) collaborate_scheme" where
  "undoable_edit e r =
     (case r of
        Inl err \<Rightarrow> Inl err
      | Inr s \<Rightarrow>
          manager_add \<lparr>ev_type = Undo, ev_origin = YDocOrigin\<rparr> (fst e) None (Some (snd e)) s)"

definition undoable_edits ::
  "('n \<times> 'p) list \<Rightarrow> ('a, 'p, 'n, 'z) collaborate_scheme \<Rightarrow> error + ('a, 'p, 'n, 'z) collaborate_scheme" where
  "undoable_edits es s = foldl (\<lambda>r e. undoable_edit e r) (Inr s) es"

text \<open>
  \<^verbatim>\<open>
  clear() {
    const last = this.historyItems.pop()
    this.historyItems = last ? [last] : []
    this.index = last ? 1 : 0
    this.manager?.clear()
    this.changeEvent.next()
  }
  \<close>
  \<open>pop()\<close> gives \<open>undefined\<close> on an empty array and on a hole; an entry is an object, so it
  is truthy (\<open>popped\<close> stands for \<open>last\<close> of the source). \<open>manager.clear()\<close> empties
  both stacks of the undo manager.
\<close>

definition pop :: "'x option list \<Rightarrow> 'x option" where
  "pop xs = (if xs = [] then None else last xs)"

definition clear :: "('a, 'p, 'n, 'z) collaborate_scheme \<Rightarrow> ('a, 'p, 'n, 'z) collaborate_scheme" where
  "clear s =
     (let popped = pop (historyItems s) in
      emit (Fired ChangeEvent)
        (s\<lparr>historyItems := (case popped of Some entry \<Rightarrow> [Some entry] | None \<Rightarrow> []),
           index := (case popped of Some entry \<Rightarrow> 1 | None \<Rightarrow> 0),
           undoStack := [],
           redoStack := []\<rparr>))"

subsection \<open>syncSlot: replaying a remote event into the local slot\<close>

text \<open>
  \<open>syncSlot(sharedSlot, localSlot)\<close> closes over the two slots: the state of the closures
  is the engine's, extended by the slots (\<open>slotId\<close> is the identity of \<open>localSlot\<close>).
\<close>

record ('a, 'p, 'n) slot_sync = "('a, 'p, 'n) collaborate" +
  slotId :: nat
  localSlot :: slot
  sharedSlot :: ytext

text \<open>
  \<open>this.selection.setAnchor(localSlot, offset)\<close> and
  \<open>this.selection.setFocus(localSlot, offset)\<close> on that state.
\<close>

definition selection_setAnchor ::
  "int \<Rightarrow> ('a, 'p, 'n) slot_sync \<Rightarrow> ('a, 'p, 'n) slot_sync" where
  "selection_setAnchor offset w =
     (let r = setAnchor (slotId w) (localSlot w) offset (selection w)
      in w\<lparr>localSlot := fst r, selection := snd r\<rparr>)"

definition selection_setFocus ::
  "int \<Rightarrow> ('a, 'p, 'n) slot_sync \<Rightarrow> ('a, 'p, 'n) slot_sync" where
  "selection_setFocus offset w =
     (let r = setFocus (slotId w) (localSlot w) offset (selection w)
      in w\<lparr>localSlot := fst r, selection := snd r\<rparr>)"

text \<open>
  A \<open>YTextEvent\<close>: \<open>keysChanged\<close>, \<open>keys\<close> (the change of a key, which has an \<open>action\<close>)
  and \<open>delta\<close>.
\<close>

datatype key_action = KeyAdd | KeyUpdate | KeyDelete

record ytext_event =
  ev_keysChanged :: "string list"
  ev_keys :: "key_action object"
  ev_delta :: "sdelta list"

text \<open>
  \<^verbatim>\<open>
  ev.keysChanged.forEach(key => {
    const change = ev.keys.get(key)
    if (!change) {
      return
    }
    const updateType = change.action
    if (updateType === 'update' || updateType === 'add') {
      const attribute = this.registry.getAttribute(key)
      if (attribute) {
        localSlot.setAttribute(attribute, sharedSlot.getAttribute(key))
      }
    } else if (updateType === 'delete') {
      const attribute = this.registry.getAttribute(key)
      if (attribute) {
        localSlot.removeAttribute(attribute)
      }
    }
  })
  \<close>
  An attribute that the shared slot does not have is \<open>undefined\<close>, here \<open>JNull\<close>.
\<close>

definition replay_key ::
  "registry \<Rightarrow> ytext_event \<Rightarrow> ('a, 'p, 'n) slot_sync \<Rightarrow> string \<Rightarrow> ('a, 'p, 'n) slot_sync" where
  "replay_key reg ev w key =
     (case obj_get (ev_keys ev) key of
        None \<Rightarrow> w
      | Some KeyDelete \<Rightarrow>
          (case getAttribute reg key of
             Some attribute \<Rightarrow> w\<lparr>localSlot := slot_removeAttribute attribute (localSlot w)\<rparr>
           | None \<Rightarrow> w)
      | Some updateType \<Rightarrow>
          (case getAttribute reg key of
             Some attribute \<Rightarrow>
               w\<lparr>localSlot :=
                   slot_setAttribute attribute
                     (case obj_get (yattrs (sharedSlot w)) key of Some v \<Rightarrow> v | None \<Rightarrow> JNull)
                     (localSlot w)\<rparr>
           | None \<Rightarrow> w))"

text \<open>
  \<^verbatim>\<open>
  if (Reflect.has(action, 'retain')) {
    if (action.attributes) {
      const formats = remoteFormatsToLocal(this.registry, action.attributes)
      if (formats.length) {
        localSlot.retain(action.retain!, formats)
      }
      localSlot.retain(localSlot.index + action.retain!)
    } else {
      localSlot.retain(action.retain!)
    }
  }
  \<close>
\<close>

definition replay_retain ::
  "registry \<Rightarrow> nat \<Rightarrow> jsvalue object option \<Rightarrow> slot \<Rightarrow> slot" where
  "replay_retain reg n attributes sl =
     (case attributes of
        Some obj \<Rightarrow>
          let formats = remoteFormatsToLocal reg (Some obj);
              sl1 = (if formats \<noteq> [] then slot_retain_formats n formats sl else sl)
          in slot_retain (slot_index sl1 + n) sl1
      | None \<Rightarrow> slot_retain n sl)"

text \<open>
  \<^verbatim>\<open>
  } else if (action.insert) {
    const index = localSlot.index
    let length = 1
    if (typeof action.insert === 'string') {
      length = action.insert.length
      localSlot.insert(action.insert, remoteFormatsToLocal(this.registry, action.attributes))
    } else {
      const sharedComponent = action.insert as YMap<any>
      const component = this.createLocalComponentBySharedComponent(sharedComponent)
      localSlot.insert(component)
    }
    if (this.selection.isSelected && tr.origin !== this.manager) {
      if (localSlot === this.selection.anchorSlot && this.selection.anchorOffset! > index) {
        this.selection.setAnchor(localSlot, this.selection.anchorOffset! + length)
      }
      if (localSlot === this.selection.focusSlot && this.selection.focusOffset! > index) {
        this.selection.setFocus(localSlot, this.selection.focusOffset! + length)
      }
    }
  }
  \<close>
\<close>

definition shift_after_insert ::
  "nat \<Rightarrow> nat \<Rightarrow> ('a, 'p, 'n) slot_sync \<Rightarrow> ('a, 'p, 'n) slot_sync" where
  "shift_after_insert idx len w =
     (let w1 =
            (if Some (slotId w) = anchorSlot (selection w) \<and> anchorOffset (selection w) > int idx
             then selection_setAnchor (anchorOffset (selection w) + int len) w else w)
      in if Some (slotId w1) = focusSlot (selection w1) \<and> focusOffset (selection w1) > int idx
         then selection_setFocus (focusOffset (selection w1) + int len) w1 else w1)"

definition replay_insert ::
  "registry \<Rightarrow> origin \<Rightarrow> string + smodel \<Rightarrow> jsvalue object option \<Rightarrow>
   ('a, 'p, 'n) slot_sync \<Rightarrow> error + ('a, 'p, 'n) slot_sync" where
  "replay_insert reg tr_origin ins attributes w =
     (let idx = slot_index (localSlot w) in
      case (case insert_string ins of
              Some s \<Rightarrow>
                Inr (length s, slot_insert (Inl s) (remoteFormatsToLocal reg attributes) (localSlot w))
            | None \<Rightarrow>
                (case createLocalComponentBySharedComponent reg (insert_embedded ins) of
                   Inl e \<Rightarrow> Inl e
                 | Inr c \<Rightarrow> Inr (1, slot_insert (Inr c) [] (localSlot w)))) of
        Inl e \<Rightarrow> Inl e
      | Inr r \<Rightarrow>
          let w1 = w\<lparr>localSlot := snd r\<rparr> in
          Inr (if isSelected (selection w1) \<and> tr_origin \<noteq> ManagerOrigin
               then shift_after_insert idx (fst r) w1
               else w1))"

text \<open>
  \<^verbatim>\<open>
  } else if (action.delete) {
    const index = localSlot.index
    localSlot.delete(action.delete)
    if (this.selection.isSelected && tr.origin !== this.manager) {
      if (localSlot === this.selection.anchorSlot && this.selection.anchorOffset! >= index) {
        this.selection.setAnchor(localSlot, this.selection.startOffset! - action.delete)
      }
      if (localSlot === this.selection.focusSlot && this.selection.focusOffset! >= index) {
        this.selection.setFocus(localSlot, this.selection.focusOffset! - action.delete)
      }
    }
  }
  \<close>
\<close>

definition shift_after_delete ::
  "nat \<Rightarrow> nat \<Rightarrow> ('a, 'p, 'n) slot_sync \<Rightarrow> ('a, 'p, 'n) slot_sync" where
  "shift_after_delete idx count w =
     (let w1 =
            (if Some (slotId w) = anchorSlot (selection w) \<and> anchorOffset (selection w) \<ge> int idx
             then selection_setAnchor (startOffset (selection w) - int count) w else w)
      in if Some (slotId w1) = focusSlot (selection w1) \<and> focusOffset (selection w1) \<ge> int idx
         then selection_setFocus (focusOffset (selection w1) - int count) w1 else w1)"

definition replay_delete ::
  "origin \<Rightarrow> nat \<Rightarrow> ('a, 'p, 'n) slot_sync \<Rightarrow> ('a, 'p, 'n) slot_sync" where
  "replay_delete tr_origin count w =
     (let idx = slot_index (localSlot w);
          w1 = w\<lparr>localSlot := slot_delete count (localSlot w)\<rparr>
      in if isSelected (selection w1) \<and> tr_origin \<noteq> ManagerOrigin
         then shift_after_delete idx count w1
         else w1)"

text \<open>
  One entry of \<open>ev.delta\<close>. \<open>action.insert\<close> and \<open>action.delete\<close> are tested for
  truthiness: an insert of a falsy value (the empty string, an embedded \<open>0\<close>, \<open>false\<close> or
  \<open>null\<close>) and a count of 0 fall through every branch.
\<close>

definition replay_action ::
  "registry \<Rightarrow> origin \<Rightarrow> ('a, 'p, 'n) slot_sync \<Rightarrow> sdelta \<Rightarrow>
   error + ('a, 'p, 'n) slot_sync" where
  "replay_action reg tr_origin w action =
     (case action of
        DRetain n attributes \<Rightarrow> Inr (w\<lparr>localSlot := replay_retain reg n attributes (localSlot w)\<rparr>)
      | DInsert ins attributes \<Rightarrow>
          if insert_truthy ins then replay_insert reg tr_origin ins attributes w else Inr w
      | DDelete count \<Rightarrow> if count \<noteq> 0 then Inr (replay_delete tr_origin count w) else Inr w)"

text \<open>
  \<^verbatim>\<open>
  const syncRemote = (ev: YTextEvent, tr: Transaction) => {
    this.runRemoteUpdate(tr, () => {
      localSlot.retain(0)
      ev.keysChanged.forEach(key => { ... })
      ev.delta.forEach(action => { ... })
    })
  }
  \<close>
  A mutation of the local slot notifies the subscriber of \<open>onContentChange\<close>, whose
  \<open>runLocalUpdate\<close> returns at once while \<open>updateFromRemote\<close> is set.
\<close>

definition replay ::
  "registry \<Rightarrow> ytext_event \<Rightarrow> origin \<Rightarrow> ('a, 'p, 'n) slot_sync \<Rightarrow>
   error + ('a, 'p, 'n) slot_sync" where
  "replay reg ev tr_origin w =
     (let w1 = w\<lparr>localSlot := slot_retain 0 (localSlot w)\<rparr>;
          w2 = foldl (replay_key reg ev) w1 (ev_keysChanged ev)
      in foldl (\<lambda>acc action.
           case acc of Inl e \<Rightarrow> Inl e | Inr w3 \<Rightarrow> replay_action reg tr_origin w3 action)
           (Inr w2) (ev_delta ev))"

definition syncRemote ::
  "registry \<Rightarrow> ytext_event \<Rightarrow> origin \<Rightarrow> ('a, 'p, 'n) slot_sync \<Rightarrow>
   error + ('a, 'p, 'n) slot_sync" where
  "syncRemote reg ev tr_origin w = runRemoteUpdate tr_origin (replay reg ev tr_origin) w"

subsection \<open>syncSlot: replaying local actions onto the shared text\<close>

text \<open>
  The actions of \<open>localSlot.onContentChange\<close>: \<open>retain\<close> (\<open>offset\<close>, \<open>formats\<close>),
  \<open>contentInsert\<close> (\<open>content\<close>, which is a string, or else \<open>ref\<close>, the component; \<open>formats\<close>),
  \<open>delete\<close> (\<open>count\<close>), \<open>attrSet\<close> (\<open>name\<close>, \<open>value\<close>) and \<open>attrDelete\<close> (\<open>name\<close>).
\<close>

datatype slot_action =
    ActRetain nat "jsvalue object option"
  | ActContentInsert "string + component" "jsvalue object option"
  | ActDelete nat
  | ActAttrSet string jsvalue
  | ActAttrDelete string

text \<open>
  \<^verbatim>\<open>
  if (action.type === 'retain') {
    const formats = action.formats
    if (formats) {
      const keys = Object.keys(formats)
      let length = keys.length
      keys.forEach(key => {
        const formatter = this.registry.getFormatter(key)
        if (!formatter) {
          length--
          Reflect.deleteProperty(formats, key)
        }
      })
      if (length) {
        sharedSlot.format(offset, action.offset, formats)
      }
    } else {
      offset = action.offset
    }
  }
  \<close>
  The state of the loop is \<open>offset\<close> and the shared slot.
\<close>

definition local_retain ::
  "registry \<Rightarrow> nat \<Rightarrow> jsvalue object option \<Rightarrow> nat \<times> ytext \<Rightarrow> nat \<times> ytext" where
  "local_retain reg action_offset action_formats st =
     (case action_formats of
        Some obj \<Rightarrow>
          let formats = filter (\<lambda>p. getFormatter reg (fst p) \<noteq> None) obj
          in if formats \<noteq> [] then (fst st, ytext_format (fst st) action_offset formats (snd st))
             else st
      | None \<Rightarrow> (action_offset, snd st))"

text \<open>
  \<^verbatim>\<open>
  } else if (action.type === 'contentInsert') {
    const delta = sharedSlot.toDelta()
    const isEmpty = delta.length === 1 && delta[0].insert === Slot.emptyPlaceholder
    if (typeof action.content === 'string') {
      length = action.content.length
      sharedSlot.insert(offset, action.content, action.formats || {})
    } else {
      length = 1
      const sharedComponent = this.createSharedComponentByLocalComponent(action.ref as Component)
      sharedSlot.insertEmbed(offset, sharedComponent, action.formats || {})
    }
    if (isEmpty && offset === 0) {
      sharedSlot.delete(sharedSlot.length - 1, 1)
    }
    offset += length
  }
  \<close>
\<close>

definition isEmpty :: "ytext \<Rightarrow> bool" where
  "isEmpty t =
     (case ydelta t of
        [DInsert ins a] \<Rightarrow> ins = Inl emptyPlaceholder
      | _ \<Rightarrow> False)"

definition local_contentInsert ::
  "string + component \<Rightarrow> jsvalue object option \<Rightarrow> nat \<times> ytext \<Rightarrow> nat \<times> ytext" where
  "local_contentInsert action_content action_formats st =
     (let offset = fst st;
          empty = isEmpty (snd st);
          formats = Some (case action_formats of Some obj \<Rightarrow> obj | None \<Rightarrow> []);
          t1 = (case action_content of
                  Inl s \<Rightarrow> ytext_insert offset s formats (snd st)
                | Inr c \<Rightarrow>
                    ytext_insertEmbed offset
                      (OfYMap (createSharedComponentByLocalComponent c)) formats (snd st));
          t2 = (if empty \<and> offset = 0 then ytext_delete (ytext_length t1 - 1) 1 t1 else t1)
      in (offset + insert_length action_content, t2))"

text \<open>
  \<^verbatim>\<open>
  } else if (action.type === 'delete') {
    const delta = sharedSlot.toDelta()
    if (sharedSlot.length) {
      sharedSlot.delete(offset, action.count)
    }
    if (sharedSlot.length === 0) {
      sharedSlot.insert(0, '\n', delta[0]?.attributes)
    }
  }
  \<close>
\<close>

definition first_attributes :: "sdelta list \<Rightarrow> jsvalue object option" where
  "first_attributes delta =
     (case delta of
        DInsert ins a # ds \<Rightarrow> a
      | DRetain n a # ds \<Rightarrow> a
      | _ \<Rightarrow> None)"

definition local_delete :: "nat \<Rightarrow> nat \<times> ytext \<Rightarrow> nat \<times> ytext" where
  "local_delete action_count st =
     (let delta = ydelta (snd st);
          t1 = (if ytext_length (snd st) \<noteq> 0 then ytext_delete (fst st) action_count (snd st)
                else snd st);
          t2 = (if ytext_length t1 = 0 then ytext_insert 0 [CHR 0x0A] (first_attributes delta) t1
                else t1)
      in (fst st, t2))"

text \<open>
  \<^verbatim>\<open>
  } else if (action.type === 'attrSet') {
    sharedSlot.setAttribute(action.name, action.value)
  } else if (action.type === 'attrDelete') {
    sharedSlot.removeAttribute(action.name)
  }
  \<close>
  \<open>local_action\<close> is the body of the loop, \<open>local_actions\<close> the closure that
  \<open>runLocalUpdate\<close> queues: \<open>let offset = 0\<close> and the loop.
\<close>

definition local_action :: "registry \<Rightarrow> nat \<times> ytext \<Rightarrow> slot_action \<Rightarrow> nat \<times> ytext" where
  "local_action reg st action =
     (case action of
        ActRetain action_offset action_formats \<Rightarrow> local_retain reg action_offset action_formats st
      | ActContentInsert action_content action_formats \<Rightarrow>
          local_contentInsert action_content action_formats st
      | ActDelete action_count \<Rightarrow> local_delete action_count st
      | ActAttrSet nm v \<Rightarrow> (fst st, ytext_setAttribute nm v (snd st))
      | ActAttrDelete nm \<Rightarrow> (fst st, ytext_removeAttribute nm (snd st)))"

definition local_actions :: "registry \<Rightarrow> slot_action list \<Rightarrow> ytext \<Rightarrow> ytext" where
  "local_actions reg acts t = snd (foldl (local_action reg) (0, t) acts)"

subsection \<open>Sample states\<close>

text \<open>
  A registry, an engine with a history of depth 2 and nothing pending, and that engine
  bound to a slot of ten characters whose shared text holds the same, with a selection
  in the slot.
\<close>

definition sample_registry :: registry where
  "sample_registry =
     \<lparr>formatterNames = [''bold'', ''color''], attributeNames = [''align''],
      componentNames = [''paragraph'']\<rparr>"

definition sample_engine :: "(nat, nat, nat) collaborate" where
  "sample_engine =
     \<lparr>stackSize = 2, updateFromRemote = False, updateRemoteActions = [], historyItems = [],
      index = 0, undoStack = [], redoStack = [],
      selection = \<lparr>anchorSlot = None, anchorOffset = 0, focusSlot = None, focusOffset = 0,
        anchorFirst = True\<rparr>,
      effects = []\<rparr>"

definition sample_sync :: "int \<Rightarrow> int \<Rightarrow> (nat, nat, nat) slot_sync" where
  "sample_sync a f =
     \<lparr>stackSize = 2, updateFromRemote = False, updateRemoteActions = [], historyItems = [],
      index = 0, undoStack = [], redoStack = [],
      selection = \<lparr>anchorSlot = Some 1, anchorOffset = a, focusSlot = Some 1, focusOffset = f,
        anchorFirst = True\<rparr>,
      effects = [],
      slotId = 1,
      localSlot = Slot [JNum 1] [(Inl ''abcdefghij'', Some [])] [] 0,
      sharedSlot = YText [(''__schema__'', JArr [JNum 1])] [DInsert (Inl ''abcdefghij'') None]\<rparr>"

subsection \<open>Measures used in the statements\<close>

text \<open>
  The pending items a group of the flush stands for: one per closure, each with the
  group's record flag.
\<close>

definition expand :: "'a Update \<Rightarrow> 'a UpdateItem list" where
  "expand u = map (\<lambda>a. \<lparr>i_record = u_record u, i_action = a\<rparr>) (u_actions u)"


text \<open>The cursor-history list has no hole at its end.\<close>

definition no_trailing_hole :: "'x option list \<Rightarrow> bool" where
  "no_trailing_hole xs = (xs = [] \<or> last xs \<noteq> None)"

text \<open>
  The entries that \<open>if (action.insert)\<close> lets in: an insert of a value that is truthy.
\<close>

definition accepted :: "sdelta \<Rightarrow> bool" where
  "accepted d = (case d of DInsert ins a \<Rightarrow> insert_truthy ins | _ \<Rightarrow> False)"

text \<open>
  The local slot that \<open>createLocalSlotBySharedSlot\<close> starts its loop with, the body of
  the loop, and the loop.
\<close>

definition new_slot :: "registry \<Rightarrow> jsvalue object \<Rightarrow> slot" where
  "new_slot reg attrs =
     foldl (\<lambda>sl p.
        case getAttribute reg (fst p) of
          Some attribute \<Rightarrow> slot_setAttribute attribute (snd p) sl
        | None \<Rightarrow> sl)
       (Slot (case obj_get attrs ''__schema__'' of Some (JArr xs) \<Rightarrow> xs | _ \<Rightarrow> []) [] [] 0)
       attrs"

definition insert_action :: "registry \<Rightarrow> slot \<Rightarrow> sdelta \<Rightarrow> error + slot" where
  "insert_action reg sl action =
     (case action of
        DInsert ins a \<Rightarrow>
          if insert_truthy ins then
            (case insert_string ins of
               Some s \<Rightarrow> Inr (slot_insert (Inl s) (remoteFormatsToLocal reg a) sl)
             | None \<Rightarrow>
                 (case createLocalComponentBySharedComponent reg (insert_embedded ins) of
                    Inl e \<Rightarrow> Inl e
                  | Inr c \<Rightarrow> Inr (slot_insert (Inr c) (remoteFormatsToLocal reg a) sl)))
          else Inl UnexpectedDeltaAction
      | DRetain n a \<Rightarrow> Inl UnexpectedDeltaAction
      | DDelete n \<Rightarrow> Inl UnexpectedDeltaAction)"

definition insert_actions :: "registry \<Rightarrow> error + slot \<Rightarrow> sdelta list \<Rightarrow> error + slot" where
  "insert_actions reg start delta =
     foldl (\<lambda>acc action. case acc of Inl e \<Rightarrow> Inl e | Inr sl \<Rightarrow> insert_action reg sl action)
       start delta"

text \<open>
  The entries that the loop inserts: those let in whose embedded value, where they have
  one, is a component that can be built.
\<close>

definition inserted :: "registry \<Rightarrow> sdelta \<Rightarrow> bool" where
  "inserted reg d =
     (case d of
        DInsert ins a \<Rightarrow>
          insert_truthy ins
          \<and> (case insert_string ins of
                Some s \<Rightarrow> True
              | None \<Rightarrow>
                  (case createLocalComponentBySharedComponent reg (insert_embedded ins) of
                     Inl e \<Rightarrow> False
                   | Inr c \<Rightarrow> True))
      | _ \<Rightarrow> False)"

text \<open>
  The units that a local insert puts into the shared text: the characters of the string,
  or the shared component, with the attributes of \<open>action.formats || {}\<close>.
\<close>

definition inserted_units :: "string + component \<Rightarrow> jsvalue object option \<Rightarrow> yunit list" where
  "inserted_units c fmts =
     (let at = given_attributes (case fmts of Some obj \<Rightarrow> obj | None \<Rightarrow> [])
      in case c of
           Inl s \<Rightarrow> map (\<lambda>ch. (Inl ch, at)) s
         | Inr cmp \<Rightarrow> [(Inr (OfYMap (createSharedComponentByLocalComponent cmp)), at)])"

subsection \<open>Well-formed local trees and their equivalence\<close>

text \<open>
  The formats of a run are well formed when no formatter occurs twice, every formatter is
  registered and no value is null (a format of value null is no format).
\<close>

definition well_formed_formats :: "registry \<Rightarrow> formats \<Rightarrow> bool" where
  "well_formed_formats reg fs =
     (distinct (map fst fs) \<and> (\<forall>f \<in> set fs. fst f \<in> set (formatterNames reg) \<and> snd f \<noteq> JNull))"

text \<open>
  A local tree is well formed for a registry when every run of every slot has well-formed
  formats, every slot attribute is a registered attribute and occurs once, the reserved
  name \<open>__schema__\<close> is no registered attribute, every component has a registered factory,
  and no map has a key twice.
\<close>

fun well_formed :: "registry \<Rightarrow> lmodel \<Rightarrow> bool"
  and well_formed_map :: "registry \<Rightarrow> mapmodel \<Rightarrow> bool"
  and well_formed_array :: "registry \<Rightarrow> arraymodel \<Rightarrow> bool"
  and well_formed_slot :: "registry \<Rightarrow> slot \<Rightarrow> bool"
  and well_formed_component :: "registry \<Rightarrow> component \<Rightarrow> bool"
where
  "well_formed reg (OfMap m) = well_formed_map reg m"
| "well_formed reg (OfArray a) = well_formed_array reg a"
| "well_formed reg (OfSlot s) = well_formed_slot reg s"
| "well_formed reg (Plain v) = True"
| "well_formed_map reg (MapModel entries) =
     (distinct (map fst entries) \<and> (\<forall>kv \<in> set entries. well_formed reg (snd kv)))"
| "well_formed_array reg (ArrayModel items) = (\<forall>v \<in> set items. well_formed reg v)"
| "well_formed_slot reg (Slot sch runs attrs idx) =
     ((\<forall>r \<in> set runs.
         (case snd r of None \<Rightarrow> False | Some fs \<Rightarrow> well_formed_formats reg fs)
         \<and> (case fst r of Inl s \<Rightarrow> True | Inr c \<Rightarrow> well_formed_component reg c))
      \<and> distinct (map fst attrs)
      \<and> (\<forall>p \<in> set attrs. fst p \<in> set (attributeNames reg))
      \<and> ''__schema__'' \<notin> set (attributeNames reg))"
| "well_formed_component reg (Component nm st) =
     (nm \<in> set (componentNames reg) \<and> well_formed_map reg st)"

text \<open>
  Two local trees are equivalent when they have the same flat form: the content of every
  slot unit by unit, each unit with its formats, with the schema and the attributes of the
  slot, the components inside in flat form, and the cursor forgotten.
\<close>

fun flat :: "lmodel \<Rightarrow> lmodel"
  and flat_map :: "mapmodel \<Rightarrow> mapmodel"
  and flat_array :: "arraymodel \<Rightarrow> arraymodel"
  and flat_slot :: "slot \<Rightarrow> slot"
  and flat_component :: "component \<Rightarrow> component"
where
  "flat (OfMap m) = OfMap (flat_map m)"
| "flat (OfArray a) = OfArray (flat_array a)"
| "flat (OfSlot s) = OfSlot (flat_slot s)"
| "flat (Plain v) = Plain v"
| "flat_map (MapModel entries) = MapModel (map (\<lambda>kv. (fst kv, flat (snd kv))) entries)"
| "flat_array (ArrayModel items) = ArrayModel (map flat items)"
| "flat_slot (Slot sch runs attrs idx) =
     Slot sch
       (concat (map (\<lambda>r.
          case fst r of
            Inl s \<Rightarrow> map (\<lambda>ch. (Inl [ch], snd r)) s
          | Inr c \<Rightarrow> [(Inr (flat_component c), snd r)]) runs))
       attrs 0"
| "flat_component (Component nm st) = Component nm (flat_map st)"

text \<open>
  The units of the shared text that a run of a local slot becomes, and the flat run that
  a unit of a shared text becomes.
\<close>

definition shared_units :: "(string + component) \<times> formats option \<Rightarrow> yunit list" where
  "shared_units r =
     (case fst r of
        Inl s \<Rightarrow> map (\<lambda>ch. (Inl ch, attrs_of (snd r))) s
      | Inr c \<Rightarrow> [(Inr (OfYMap (createSharedComponentByLocalComponent c)), attrs_of (snd r))])"

definition local_run :: "registry \<Rightarrow> sdelta \<Rightarrow> (string + component) \<times> formats option" where
  "local_run reg d =
     (case d of
        DInsert (Inl s) a \<Rightarrow> (Inl s, Some (remoteFormatsToLocal reg a))
      | DInsert (Inr m) a \<Rightarrow>
          (Inr (projr (createLocalComponentBySharedComponent reg m)),
           Some (remoteFormatsToLocal reg a))
      | DRetain n a \<Rightarrow> (Inl [], None)
      | DDelete n \<Rightarrow> (Inl [], None))"

definition flat_content ::
  "((string + component) \<times> formats option) list \<Rightarrow> ((string + component) \<times> formats option) list" where
  "flat_content runs =
     concat (map (\<lambda>r.
        case fst r of
          Inl s \<Rightarrow> map (\<lambda>ch. (Inl [ch], snd r)) s
        | Inr c \<Rightarrow> [(Inr (flat_component c), snd r)]) runs)"

definition flat_unit :: "registry \<Rightarrow> yunit \<Rightarrow> (string + component) \<times> formats option" where
  "flat_unit reg u =
     (case fst u of
        Inl ch \<Rightarrow> (Inl [ch], Some (remoteFormatsToLocal reg (attrs_opt (snd u))))
      | Inr m \<Rightarrow>
          (Inr (flat_component (projr (createLocalComponentBySharedComponent reg m))),
           Some (remoteFormatsToLocal reg (attrs_opt (snd u)))))"

text \<open>
  A run whose formats are there and well formed; the body of the loop of
  \<open>createSharedSlotByLocalSlot\<close>, whose state is the shared slot and \<open>offset\<close>; the
  number of units of a list of runs.
\<close>

definition run_ok :: "registry \<Rightarrow> (string + component) \<times> formats option \<Rightarrow> bool" where
  "run_ok reg r = (case snd r of None \<Rightarrow> False | Some fs \<Rightarrow> well_formed_formats reg fs)"

definition share_step ::
  "ytext \<times> nat \<Rightarrow> (string + component) \<times> formats option \<Rightarrow> ytext \<times> nat" where
  "share_step acc i =
     (let formats =
            (case snd i of
               Some fs \<Rightarrow> Some (foldl (\<lambda>obj item. obj_set (fst item) (snd item) obj) [] fs)
             | None \<Rightarrow> None)
      in ((case fst i of
             Inl s \<Rightarrow> ytext_insert (snd acc) s formats (fst acc)
           | Inr c \<Rightarrow>
               ytext_insertEmbed (snd acc)
                 (OfYMap (createSharedComponentByLocalComponent c)) formats (fst acc)),
          snd acc + insert_length (fst i)))"

definition total_length :: "((string + component) \<times> formats option) list \<Rightarrow> nat" where
  "total_length rs = sum_list (map (\<lambda>r. insert_length (fst r)) rs)"

text \<open>
  A slot of text in three runs, the last one bold, then a registered component whose
  state holds a slot, a number and an array, then one more character; the slot has one
  attribute and its cursor at offset 2.
\<close>

definition sample_slot :: slot where
  "sample_slot =
     Slot [JNum 1, JNum 2]
       [(Inl ''ab'', Some []), (Inl ''cd'', Some []),
        (Inl ''e'', Some [(''color'', JStr ''red''), (''bold'', JBool True)]),
        (Inr (Component ''paragraph''
               (MapModel
                 [(''slot'',
                   OfSlot (Slot [JNum 1]
                     [(Inl ''hi'', Some [(''bold'', JBool True)]), (Inl ''!'', Some [])] [] 0)),
                  (''level'', Plain (JNum 3)),
                  (''items'', OfArray (ArrayModel [Plain JNull, Plain (JStr ''x'')]))])),
         Some [(''bold'', JBool True)]),
        (Inl ''z'', Some [])]
       [(''align'', JStr ''left'')] 2"

section \<open>Properties\<close>

subsection \<open>The batching flush\<close>

lemma collectUpdates_snoc:
  "collectUpdates (items @ [item]) = collect (collectUpdates items) item"
  by (simp add: collectUpdates_def)

lemma collect_expand:
  assumes "[] \<notin> set (map u_actions us)"
  shows "concat (map expand (collect us item)) = concat (map expand us) @ [item]"
proof (cases us rule: rev_cases)
  case Nil
  then show ?thesis by (simp add: collect_def expand_def)
next
  case (snoc vs u)
  then show ?thesis by (simp add: collect_def expand_def Let_def)
qed

lemma collect_nonempty:
  assumes "[] \<notin> set (map u_actions us)"
  shows "[] \<notin> set (map u_actions (collect us item))"
proof (cases us rule: rev_cases)
  case Nil
  then show ?thesis by (simp add: collect_def)
next
  case (snoc vs u)
  with assms show ?thesis by (auto simp add: collect_def Let_def)
qed

lemma collect_distinct_adj:
  assumes "distinct_adj (map u_record us)"
  shows "distinct_adj (map u_record (collect us item))"
proof (cases us rule: rev_cases)
  case Nil
  then show ?thesis by (simp add: collect_def)
next
  case (snoc vs u)
  with assms show ?thesis
    by (auto simp add: collect_def Let_def distinct_adj_append_iff split: if_splits)
qed

lemma collectUpdates_nonempty: "[] \<notin> set (map u_actions (collectUpdates items))"
proof (induction items rule: rev_induct)
  case Nil
  show ?case by (simp add: collectUpdates_def)
next
  case (snoc item items)
  then show ?case unfolding collectUpdates_snoc by (rule collect_nonempty)
qed

lemma collectUpdates_expand: "concat (map expand (collectUpdates items)) = items"
proof (induction items rule: rev_induct)
  case Nil
  show ?case by (simp add: collectUpdates_def)
next
  case (snoc item items)
  then show ?case unfolding collectUpdates_snoc
    by (simp add: collect_expand [OF collectUpdates_nonempty])
qed

lemma collectUpdates_distinct_adj: "distinct_adj (map u_record (collectUpdates items))"
proof (induction items rule: rev_induct)
  case Nil
  show ?case by (simp add: collectUpdates_def)
next
  case (snoc item items)
  then show ?case unfolding collectUpdates_snoc by (rule collect_distinct_adj)
qed

lemma effects_emit: "effects (emit e s) = effects s @ [e]"
  by (simp add: emit_def)

lemma queue_emit: "updateRemoteActions (emit e s) = updateRemoteActions s"
  by (simp add: emit_def)

lemma effects_fold_emit:
  "effects (foldl (\<lambda>st item. emit (f item) st) s us) = effects s @ map f us"
  by (induction us arbitrary: s) (simp_all add: emit_def)

lemma queue_fold_emit:
  "updateRemoteActions (foldl (\<lambda>st item. emit (f item) st) s us) = updateRemoteActions s"
  by (induction us arbitrary: s) (simp_all add: emit_def)

text \<open>
  Claim C2. The flush cuts the pending queue into groups and runs one transaction per
  group, in order, then fires the applied notification and nothing else: the groups, put
  end to end, are the queue itself (no item lost, added or moved, and every item in a group
  of its own record flag); no group is empty; two neighbouring groups differ in their flag,
  so each group is a maximal run; the origin of a group's transaction is the document for
  a recorded group and the no-record token otherwise; the queue is empty afterwards.
\<close>

theorem flush_groups:
  "effects (flush s) =
     effects s @
     map (\<lambda>u. Transact (if u_record u then YDocOrigin else NoRecordOrigin) (u_actions u))
       (collectUpdates (updateRemoteActions s)) @
     [Fired LocalChangesApplied]
   \<and> concat (map expand (collectUpdates (updateRemoteActions s))) = updateRemoteActions s
   \<and> [] \<notin> set (map u_actions (collectUpdates (updateRemoteActions s)))
   \<and> distinct_adj (map u_record (collectUpdates (updateRemoteActions s)))
   \<and> updateRemoteActions (flush s) = []"
proof -
  have "effects (flush s) =
     effects s @ map transact (collectUpdates (updateRemoteActions s)) @
     [Fired LocalChangesApplied]"
    by (simp add: flush_def Let_def effects_emit effects_fold_emit)
  moreover have "transact =
     (\<lambda>u::'a Update. Transact (if u_record u then YDocOrigin else NoRecordOrigin) (u_actions u))"
    by (rule ext) (simp add: transact_def transactOrigin_def)
  moreover have "updateRemoteActions (flush s) = []"
    by (simp add: flush_def Let_def queue_emit queue_fold_emit)
  ultimately show ?thesis
    using collectUpdates_expand collectUpdates_nonempty collectUpdates_distinct_adj by metis
qed

text \<open>
  The subscriber runs behind a filter: a batch of changes that are all remote flushes
  nothing, any other batch flushes the queue.
\<close>

lemma onDocChanged_flushes:
  "onDocChanged changes s = (if set changes \<subseteq> {Remote} then s else flush s)"
proof -
  have "(filter (\<lambda>from. from \<noteq> Remote) changes = []) = (set changes \<subseteq> {Remote})"
    by (auto simp add: filter_empty_conv)
  then show ?thesis by (simp add: onDocChanged_def)
qed

text \<open>
  A queue tagged true, true, false, true is flushed as three transactions, of the first
  two closures, of the third and of the fourth, and the notification follows them.
\<close>

theorem flush_groups_witness:
  "effects (flush (sample_engine\<lparr>updateRemoteActions :=
      [\<lparr>i_record = True, i_action = 1\<rparr>, \<lparr>i_record = True, i_action = 2\<rparr>,
       \<lparr>i_record = False, i_action = 3\<rparr>, \<lparr>i_record = True, i_action = 4\<rparr>]\<rparr>)) =
     [Transact YDocOrigin [1, 2], Transact NoRecordOrigin [3], Transact YDocOrigin [4],
      Fired LocalChangesApplied]"
  using flush_groups [of "sample_engine\<lparr>updateRemoteActions :=
      [\<lparr>i_record = True, i_action = 1\<rparr>, \<lparr>i_record = True, i_action = 2\<rparr>,
       \<lparr>i_record = False, i_action = 3\<rparr>, \<lparr>i_record = True, i_action = 4\<rparr>]\<rparr>"]
  by (simp add: sample_engine_def collectUpdates_def collect_def)

subsection \<open>Echo suppression and the replay flag\<close>

text \<open>
  Claim C3. An event whose transaction has the document itself as origin changes nothing:
  \<open>runRemoteUpdate\<close> returns before it runs the callback, whatever the callback is, and so
  the handler of a shared text leaves the engine, the local slot and the selection as they
  were.
\<close>

theorem echo_is_ignored:
  "runRemoteUpdate YDocOrigin fn s = Inr s \<and> syncRemote reg ev YDocOrigin w = Inr w"
  by (simp add: runRemoteUpdate_def syncRemote_def)

text \<open>
  An event that inserts three characters, observed with the document as origin, leaves
  the sample engine, its slot and its selection as they were.
\<close>

theorem echo_is_ignored_witness:
  "syncRemote sample_registry
     \<lparr>ev_keysChanged = [], ev_keys = [], ev_delta = [DRetain 2 None, DInsert (Inl ''xyz'') None]\<rparr>
     YDocOrigin (sample_sync 5 5) = Inr (sample_sync 5 5)"
  using echo_is_ignored [where fn = Inr and s = "sample_sync 5 5" and reg = sample_registry
      and ev = "\<lparr>ev_keysChanged = [], ev_keys = [], ev_delta = [DRetain 2 None, DInsert (Inl ''xyz'') None]\<rparr>"
      and w = "sample_sync 5 5"]
  by simp

text \<open>
  Claim C6, as the code has it. While \<open>updateFromRemote\<close> is set, \<open>runLocalUpdate\<close>
  returns the state as it is: the mutation is dropped, not queued. Outside a replay the
  closure is appended to the queue with the record flag true. So a replay of any origin
  but the document's, whose callback triggers a local mutation, ends with the queue as it
  was and the flag reset.
\<close>

theorem runLocalUpdate_during_replay:
  "(updateFromRemote s \<longrightarrow> runLocalUpdate fn rec s = s)
   \<and> (\<not> updateFromRemote s \<longrightarrow>
        updateRemoteActions (runLocalUpdate_default fn s) =
          updateRemoteActions s @ [\<lparr>i_record = True, i_action = fn\<rparr>])
   \<and> (tr_origin \<noteq> YDocOrigin \<longrightarrow>
        runRemoteUpdate tr_origin (\<lambda>st. Inr (runLocalUpdate_default fn st)) s =
          Inr (emit (Scoped (if tr_origin = ManagerOrigin then HistoryApply else RemoteUpdate)) s
                \<lparr>updateFromRemote := False\<rparr>))"
  by (simp add: runLocalUpdate_def runLocalUpdate_default_def runRemoteUpdate_def
      historyApplyTransact_def remoteUpdateTransact_def emit_def Let_def)

theorem runLocalUpdate_during_replay_witness:
  "runLocalUpdate 7 False (sample_engine\<lparr>updateFromRemote := True\<rparr>) =
     sample_engine\<lparr>updateFromRemote := True\<rparr>
   \<and> updateRemoteActions (runLocalUpdate_default 7 sample_engine) =
       [\<lparr>i_record = True, i_action = 7\<rparr>]
   \<and> runRemoteUpdate ManagerOrigin (\<lambda>st. Inr (runLocalUpdate_default 7 st)) sample_engine =
       Inr (emit (Scoped HistoryApply) sample_engine)"
  using runLocalUpdate_during_replay [where s = "sample_engine\<lparr>updateFromRemote := True\<rparr>"
      and fn = 7 and rec = False and tr_origin = ManagerOrigin]
    runLocalUpdate_during_replay [where s = sample_engine and fn = 7 and rec = False
      and tr_origin = ManagerOrigin]
  by (simp add: sample_engine_def emit_def)

text \<open>
  The claim as stated fails: a local mutation that a remote replay triggers is not in the
  pending queue afterwards, with no record flag at all.
\<close>

theorem replay_mutation_is_not_queued:
  "map_sum id updateRemoteActions
     (runRemoteUpdate (OtherOrigin 0) (\<lambda>st. Inr (runLocalUpdate_default 7 st)) sample_engine) =
   Inr []"
  by (simp add: runRemoteUpdate_def remoteUpdateTransact_def runLocalUpdate_default_def
      runLocalUpdate_def emit_def sample_engine_def Let_def)

subsection \<open>Selection endpoints under a remote replay\<close>

text \<open>
  The length of a slot under the operations of the replay, and the endpoints under the
  two mutators.
\<close>

lemma take_content_length:
  "sum_list (map (\<lambda>r. insert_length (fst r)) (take_content n rs)) =
     min n (sum_list (map (\<lambda>r. insert_length (fst r)) rs))"
  by (induction n rs rule: take_content.induct) (auto simp add: insert_length_def)

lemma drop_content_length:
  "sum_list (map (\<lambda>r. insert_length (fst r)) (drop_content n rs)) =
     sum_list (map (\<lambda>r. insert_length (fst r)) rs) - n"
  by (induction n rs rule: drop_content.induct) (auto simp add: insert_length_def)

lemma slot_length_retain: "slot_length (slot_retain n s) = slot_length s"
  by (simp add: slot_retain_def slot_length_def)

lemma slot_index_retain: "slot_index (slot_retain n s) = min n (slot_length s)"
  by (simp add: slot_retain_def)


lemma slot_length_delete:
  "slot_length (slot_delete n s) =
     min (slot_index s) (slot_length s) + (slot_length s - (slot_index s + n))"
  by (simp add: slot_delete_def slot_length_def take_content_length drop_content_length)

lemma selection_setAnchor_simps:
  "slotId (selection_setAnchor x w) = slotId w"
  "slot_length (localSlot (selection_setAnchor x w)) = slot_length (localSlot w)"
  "anchorOffset (selection (selection_setAnchor x w)) = int (min (nat x) (slot_length (localSlot w)))"
  "focusOffset (selection (selection_setAnchor x w)) = focusOffset (selection w)"
  "focusSlot (selection (selection_setAnchor x w)) = focusSlot (selection w)"
  by (simp_all add: selection_setAnchor_def setAnchor_def Let_def slot_length_retain
      slot_index_retain)

lemma selection_setFocus_simps:
  "slotId (selection_setFocus x w) = slotId w"
  "slot_length (localSlot (selection_setFocus x w)) = slot_length (localSlot w)"
  "focusOffset (selection (selection_setFocus x w)) = int (min (nat x) (slot_length (localSlot w)))"
  "anchorOffset (selection (selection_setFocus x w)) = anchorOffset (selection w)"
  "anchorSlot (selection (selection_setFocus x w)) = anchorSlot (selection w)"
  by (simp_all add: selection_setFocus_def setFocus_def Let_def slot_length_retain
      slot_index_retain)



lemma shift_after_delete_focus:
  assumes "focusSlot (selection w) = Some (slotId w)"
    and "int idx \<le> focusOffset (selection w)"
    and "focusOffset (selection w) - int count \<le> int (slot_length (localSlot w))"
  shows "focusOffset (selection (shift_after_delete idx count w)) =
     max 0 (focusOffset (selection w) - int count)"
  using assms
  by (auto simp add: shift_after_delete_def Let_def selection_setAnchor_simps
      selection_setFocus_simps)

lemma shift_after_delete_anchor:
  assumes "anchorSlot (selection w) = Some (slotId w)"
    and "int idx \<le> anchorOffset (selection w)"
    and "startOffset (selection w) = anchorOffset (selection w)"
    and "anchorOffset (selection w) - int count \<le> int (slot_length (localSlot w))"
  shows "anchorOffset (selection (shift_after_delete idx count w)) =
     max 0 (anchorOffset (selection w) - int count)"
  using assms
  by (auto simp add: shift_after_delete_def Let_def selection_setAnchor_simps
      selection_setFocus_simps)

lemma replay_delete_shift:
  assumes "isSelected (selection w)" and "tr_origin \<noteq> ManagerOrigin"
  shows "\<exists>w1. selection w1 = selection w \<and> slotId w1 = slotId w
     \<and> slot_length (localSlot w1) =
         min (slot_index (localSlot w)) (slot_length (localSlot w)) +
         (slot_length (localSlot w) - (slot_index (localSlot w) + count))
     \<and> replay_delete tr_origin count w = shift_after_delete (slot_index (localSlot w)) count w1"
  using assms
  by (intro exI [of _ "w\<lparr>localSlot := slot_delete count (localSlot w)\<rparr>"])
    (simp add: replay_delete_def Let_def slot_length_delete)

text \<open>
  Claim C4, as the code has it. A remote delete of a count that is not 0, replayed with an
  origin other than the undo manager into a slot of a live selection, always succeeds. The
  engine takes the cursor of the local slot for the offset of the delete. An endpoint that
  lies in the slot at or behind that cursor is set back by the count, with no clamp at the
  cursor; it stops only at the start of the slot. The focus goes to its offset less the
  count, or to 0 where that is negative, and so does the anchor whenever the anchor is the
  start of the selection (as it is in a collapsed selection). A delete that spans the
  endpoint therefore leaves it before the start of the delete, unless the delete starts at
  offset 0.
\<close>

theorem remote_delete_shifts_selection:
  assumes "count \<noteq> 0" and "tr_origin \<noteq> ManagerOrigin" and "isSelected (selection w)"
  shows "\<exists>w'. replay_action reg tr_origin w (DDelete count) = Inr w'
     \<and> (focusSlot (selection w) = Some (slotId w)
          \<and> int (slot_index (localSlot w)) \<le> focusOffset (selection w)
          \<and> focusOffset (selection w) \<le> int (slot_length (localSlot w))
        \<longrightarrow> focusOffset (selection w') = max 0 (focusOffset (selection w) - int count))
     \<and> (anchorSlot (selection w) = Some (slotId w)
          \<and> int (slot_index (localSlot w)) \<le> anchorOffset (selection w)
          \<and> anchorOffset (selection w) \<le> int (slot_length (localSlot w))
          \<and> startOffset (selection w) = anchorOffset (selection w)
        \<longrightarrow> anchorOffset (selection w') = max 0 (anchorOffset (selection w) - int count))"
proof -
  from replay_delete_shift [OF assms(3,2), of count] obtain w1 where
    sel: "selection w1 = selection w" and sid: "slotId w1 = slotId w"
    and len: "slot_length (localSlot w1) =
         min (slot_index (localSlot w)) (slot_length (localSlot w)) +
         (slot_length (localSlot w) - (slot_index (localSlot w) + count))"
    and w': "replay_delete tr_origin count w = shift_after_delete (slot_index (localSlot w)) count w1"
    by blast
  have bound: "x - int count \<le> int (slot_length (localSlot w1))"
    if "int (slot_index (localSlot w)) \<le> x" and "x \<le> int (slot_length (localSlot w))" for x
    using that len by linarith
  have focus: "focusOffset (selection (shift_after_delete (slot_index (localSlot w)) count w1)) =
      max 0 (focusOffset (selection w) - int count)"
    if "focusSlot (selection w) = Some (slotId w)"
      and "int (slot_index (localSlot w)) \<le> focusOffset (selection w)"
      and "focusOffset (selection w) \<le> int (slot_length (localSlot w))"
    using shift_after_delete_focus [of w1 "slot_index (localSlot w)" count] that bound sel sid
    by simp
  have anchor: "anchorOffset (selection (shift_after_delete (slot_index (localSlot w)) count w1)) =
      max 0 (anchorOffset (selection w) - int count)"
    if "anchorSlot (selection w) = Some (slotId w)"
      and "int (slot_index (localSlot w)) \<le> anchorOffset (selection w)"
      and "anchorOffset (selection w) \<le> int (slot_length (localSlot w))"
      and "startOffset (selection w) = anchorOffset (selection w)"
    using shift_after_delete_anchor [of w1 "slot_index (localSlot w)" count] that bound sel sid
    by simp
  from assms(1) have "replay_action reg tr_origin w (DDelete count) =
      Inr (shift_after_delete (slot_index (localSlot w)) count w1)"
    by (simp add: replay_action_def w')
  with focus anchor show ?thesis by simp
qed

text \<open>
  Anchor and focus at offset 5, the cursor at offset 1, a remote delete of 2 units: both
  endpoints move to 3.
\<close>

theorem remote_delete_shifts_selection_witness:
  "\<exists>w'. replay_action sample_registry (OtherOrigin 0)
       ((sample_sync 5 5)\<lparr>localSlot := slot_retain 1 (localSlot (sample_sync 5 5))\<rparr>)
       (DDelete 2) = Inr w'
     \<and> focusOffset (selection w') = 3 \<and> anchorOffset (selection w') = 3"
proof -
  let ?w = "(sample_sync 5 5)\<lparr>localSlot := slot_retain 1 (localSlot (sample_sync 5 5))\<rparr>"
  have h: "(2::nat) \<noteq> 0" "OtherOrigin 0 \<noteq> ManagerOrigin" "isSelected (selection ?w)"
    by (simp_all add: sample_sync_def isSelected_def)
  from remote_delete_shifts_selection [OF h, where reg = sample_registry]
  show ?thesis
    by (simp add: sample_sync_def startOffset_def slot_retain_def slot_length_def
        insert_length_def)
qed

text \<open>
  The claim as stated fails: with anchor and focus at offset 5 of ten characters, a remote
  delete of 3 units at offset 4 spans both endpoints, and leaves them at offset 2, not at
  the start of the delete, 4. The cursor of the slot is then at offset 2 as well, where
  the mutators put it.
\<close>

theorem remote_delete_is_not_clamped:
  "map_sum id (\<lambda>w. (anchorOffset (selection w), focusOffset (selection w), slot_index (localSlot w)))
     (syncRemote sample_registry
        \<lparr>ev_keysChanged = [], ev_keys = [], ev_delta = [DRetain 4 None, DDelete 3]\<rparr>
        (OtherOrigin 0) (sample_sync 5 5)) =
   Inr (2, 2, 2)"
  by (simp add: syncRemote_def runRemoteUpdate_def remoteUpdateTransact_def replay_def
      replay_action_def replay_retain_def replay_delete_def shift_after_delete_def
      slot_retain_def slot_delete_def slot_length_def insert_length_def startOffset_def
      selection_setAnchor_def selection_setFocus_def
      setAnchor_def setFocus_def isSelected_def emit_def sample_sync_def Let_def)

text \<open>
  The endpoints stop at the start of the slot: at offset 1, a remote delete of 3 units at
  offset 0 leaves them at 0.
\<close>

lemma remote_delete_stops_at_slot_start:
  "map_sum id (\<lambda>w. (anchorOffset (selection w), focusOffset (selection w)))
     (syncRemote sample_registry
        \<lparr>ev_keysChanged = [], ev_keys = [], ev_delta = [DDelete 3]\<rparr>
        (OtherOrigin 0) (sample_sync 1 1)) =
   Inr (0, 0)"
  by (simp add: syncRemote_def runRemoteUpdate_def remoteUpdateTransact_def replay_def
      replay_action_def replay_retain_def replay_delete_def shift_after_delete_def
      slot_retain_def slot_delete_def slot_length_def insert_length_def startOffset_def
      selection_setAnchor_def selection_setFocus_def
      setAnchor_def setFocus_def isSelected_def emit_def sample_sync_def Let_def)

text \<open>
  The anchor is not set from its own offset but from the start offset of the selection:
  with the anchor at 8 and the focus at 3, a remote delete of 1 unit at offset 0 moves the
  focus to 2 and the anchor to 2 as well.
\<close>

lemma anchor_takes_start_offset:
  "map_sum id (\<lambda>w. (anchorOffset (selection w), focusOffset (selection w)))
     (syncRemote sample_registry
        \<lparr>ev_keysChanged = [], ev_keys = [], ev_delta = [DDelete 1]\<rparr>
        (OtherOrigin 0) (sample_sync 8 3)) =
   Inr (2, 2)"
  by (simp add: syncRemote_def runRemoteUpdate_def remoteUpdateTransact_def replay_def
      replay_action_def replay_delete_def shift_after_delete_def
      slot_retain_def slot_delete_def slot_length_def insert_length_def startOffset_def
      selection_setAnchor_def selection_setFocus_def
      setAnchor_def setFocus_def isSelected_def emit_def sample_sync_def Let_def)













subsection \<open>The history\<close>

text \<open>
  Claim C7 fails on the code. With a stack size of 2, four undoable edits leave the undo
  manager with its two last items, and the cursor-history list with three elements, a
  hole between the entries of the third and the fourth edit, and \<open>index\<close> at 4: the
  eviction shifts both lists and leaves \<open>index\<close> as it is, so the next edit lengthens the
  list to \<open>index\<close> before it pushes.
\<close>

theorem eviction_leaves_index:
  "map_sum id (\<lambda>s. (undoStack s, historyItems s, index s))
     (undoable_edits [(1, 11), (2, 12), (3, 13), (4, 14)] sample_engine) =
   Inr ([3, 4],
        [Some \<lparr>before = None, after = Some 13\<rparr>, None, Some \<lparr>before = None, after = Some 14\<rparr>],
        4)"
  by (simp add: undoable_edits_def undoable_edit_def manager_add_def stack_item_added_def
      record_entry_def set_length_def evict_def emit_def sample_engine_def Let_def)

text \<open>
  What holds of the claim: the handler leaves the undo stack within the stack size, when
  it was within it before the undo manager pushed one item.
\<close>

lemma undo_stack_bounded:
  assumes "int (length (undoStack s)) \<le> stackSize s"
    and "manager_add \<lparr>ev_type = Undo, ev_origin = tr_origin\<rparr> item b c s = Inr s'"
  shows "int (length (undoStack s')) \<le> stackSize s' \<and> stackSize s' = stackSize s"
  using assms
  by (auto simp add: manager_add_def stack_item_added_def record_entry_def evict_def emit_def
      Let_def split: if_splits sum.splits)

lemma no_trailing_hole_drop:
  assumes "no_trailing_hole xs"
  shows "no_trailing_hole (drop 1 xs)"
proof (cases xs)
  case Nil
  then show ?thesis by (simp add: no_trailing_hole_def)
next
  case (Cons y ys)
  with assms show ?thesis by (cases ys) (simp_all add: no_trailing_hole_def)
qed

lemma record_entry_no_trailing_hole:
  assumes "no_trailing_hole (historyItems s)"
    and "record_entry event b c s = Inr s1"
  shows "no_trailing_hole (historyItems s1)"
  using assms
  by (auto simp add: record_entry_def no_trailing_hole_def split: if_splits sum.splits)

lemma evict_no_trailing_hole:
  assumes "no_trailing_hole (historyItems s)"
  shows "no_trailing_hole (historyItems (evict s))"
  using no_trailing_hole_drop [OF assms] assms by (simp add: evict_def)

text \<open>
  The handler never leaves a hole at the end of the cursor-history list, so \<open>pop()\<close> in
  \<open>clear\<close> finds an entry whenever the list is not empty.
\<close>

lemma stack_item_added_no_trailing_hole:
  assumes "no_trailing_hole (historyItems s)"
    and "stack_item_added event b c s = Inr s'"
  shows "no_trailing_hole (historyItems s')"
proof -
  from assms(2) obtain s1 where s1: "record_entry event b c s = Inr s1"
    and s': "historyItems s' = historyItems (evict s1)"
    by (auto simp add: stack_item_added_def emit_def Let_def split: sum.splits if_splits)
  from record_entry_no_trailing_hole [OF assms(1) s1] show ?thesis
    unfolding s' by (rule evict_no_trailing_hole)
qed

lemma clear_no_trailing_hole: "no_trailing_hole (historyItems (clear s))"
  by (simp add: clear_def pop_def emit_def no_trailing_hole_def Let_def split: option.split)

text \<open>
  Claim C8. After \<open>clear\<close> the cursor-history list has at most one element and \<open>index\<close>
  is its length, 0 or 1; an empty list stays empty, and a list whose last element is an
  entry keeps that entry alone.
\<close>

theorem clear_history:
  "length (historyItems (clear s)) \<le> 1
   \<and> index (clear s) = int (length (historyItems (clear s)))
   \<and> (historyItems s = [] \<longrightarrow> historyItems (clear s) = [])
   \<and> (historyItems s \<noteq> [] \<and> last (historyItems s) = Some e \<longrightarrow>
        historyItems (clear s) = [Some e])"
  by (simp add: clear_def pop_def emit_def Let_def split: option.split)

text \<open>
  After three undoable edits with a stack size of 2, \<open>clear\<close> keeps the entry of the
  third edit and sets \<open>index\<close> to 1; on the engine with no history it sets \<open>index\<close> to 0.
\<close>

theorem clear_history_witness:
  "map_sum id (\<lambda>s. (historyItems (clear s), index (clear s)))
     (undoable_edits [(1, 11), (2, 12), (3, 13)] sample_engine) =
     Inr ([Some \<lparr>before = None, after = Some 13\<rparr>], 1)
   \<and> historyItems (clear sample_engine) = [] \<and> index (clear sample_engine) = 0"
proof -
  have e: "undoable_edits [(1, 11), (2, 12), (3, 13)] sample_engine =
      Inr (sample_engine\<lparr>
        historyItems := [Some \<lparr>before = None, after = Some 12\<rparr>,
                         Some \<lparr>before = None, after = Some 13\<rparr>],
        index := 3, undoStack := [2, 3],
        effects := [Fired PushEvent, Fired ChangeEvent, Fired PushEvent, Fired ChangeEvent,
                    Fired PushEvent, Fired ChangeEvent]\<rparr>)"
    by (simp add: undoable_edits_def undoable_edit_def manager_add_def stack_item_added_def
        record_entry_def set_length_def evict_def emit_def sample_engine_def Let_def)
  let ?s = "sample_engine\<lparr>
        historyItems := [Some \<lparr>before = None, after = Some 12\<rparr>,
                         Some \<lparr>before = None, after = Some 13\<rparr>],
        index := 3, undoStack := [2, 3],
        effects := [Fired PushEvent, Fired ChangeEvent, Fired PushEvent, Fired ChangeEvent,
                    Fired PushEvent, Fired ChangeEvent]\<rparr>"
  from clear_history [where s = ?s and e = "\<lparr>before = None, after = Some 13\<rparr>"]
    clear_history [where s = sample_engine and e = "\<lparr>before = None, after = Some 13\<rparr>"]
  show ?thesis unfolding e by (simp add: sample_engine_def)
qed

subsection \<open>Rejecting a delta that is not made of insertions\<close>

lemma createLocalSlotBySharedSlot_loop:
  "createLocalSlotBySharedSlot reg (YText attrs delta) =
     insert_actions reg (Inr (new_slot reg attrs)) delta"
  unfolding insert_actions_def new_slot_def insert_action_def
  by (simp add: Let_def cong: sum.case_cong sdelta.case_cong)

lemma insert_actions_Nil: "insert_actions reg start [] = start"
  by (simp add: insert_actions_def)

lemma insert_actions_Inl: "insert_actions reg (Inl e) delta = Inl e"
  by (induction delta) (simp_all add: insert_actions_def)

lemma insert_actions_Cons:
  "insert_actions reg (Inr sl) (d # delta) = insert_actions reg (insert_action reg sl d) delta"
  by (simp add: insert_actions_def)

lemma inserted_accepted: "inserted reg d \<Longrightarrow> accepted d"
  by (simp add: inserted_def accepted_def split: sdelta.splits)

lemma insert_action_rejects:
  assumes "\<not> accepted d"
  shows "insert_action reg sl d = Inl UnexpectedDeltaAction"
  using assms by (simp add: accepted_def insert_action_def split: sdelta.splits)

lemma insert_action_error:
  assumes "accepted d" and "insert_action reg sl d = Inl e"
  shows "\<exists>m a. d = DInsert (Inr m) a \<and> createLocalComponentBySharedComponent reg m = Inl e"
proof -
  from assms obtain ins a where d: "d = DInsert ins a" and t: "insert_truthy ins"
    by (cases d) (simp_all add: accepted_def)
  from assms(2) d t have "insert_string ins = None
      \<and> createLocalComponentBySharedComponent reg (insert_embedded ins) = Inl e"
    by (simp add: insert_action_def split: option.splits sum.splits)
  with insert_embedded_Inr [of ins] d show ?thesis by auto
qed

lemma insert_action_builds:
  assumes "inserted reg d"
  shows "\<exists>sl'. insert_action reg sl d = Inr sl'"
  using assms
  by (auto simp add: inserted_def insert_action_def split: sdelta.splits option.splits sum.splits)

lemma insert_actions_raise:
  assumes "\<exists>d \<in> set delta. \<not> accepted d"
  shows "\<exists>e. insert_actions reg (Inr sl) delta = Inl e"
  using assms
proof (induction delta arbitrary: sl)
  case Nil
  then show ?case by simp
next
  case (Cons d delta)
  show ?case
  proof (cases "insert_action reg sl d")
    case (Inl e)
    then show ?thesis by (simp add: insert_actions_Cons insert_actions_Inl)
  next
    case (Inr sl')
    with insert_action_rejects [of d reg sl] have "accepted d" by auto
    with Cons.prems have "\<exists>d \<in> set delta. \<not> accepted d" by simp
    from Cons.IH [OF this] Inr show ?thesis by (simp add: insert_actions_Cons)
  qed
qed

lemma insert_actions_error:
  assumes "\<forall>d \<in> set delta. accepted d"
    and "insert_actions reg (Inr sl) delta = Inl e"
  shows "\<exists>m a. DInsert (Inr m) a \<in> set delta \<and> createLocalComponentBySharedComponent reg m = Inl e"
  using assms
proof (induction delta arbitrary: sl)
  case Nil
  then show ?case by (simp add: insert_actions_Nil)
next
  case (Cons d delta)
  show ?case
  proof (cases "insert_action reg sl d")
    case (Inl e')
    with Cons.prems have "e' = e" by (simp add: insert_actions_Cons insert_actions_Inl)
    with Inl Cons.prems insert_action_error [of d reg sl e] show ?thesis by auto
  next
    case (Inr sl')
    with Cons.prems have "insert_actions reg (Inr sl') delta = Inl e"
      by (simp add: insert_actions_Cons)
    with Cons.IH [of sl'] Cons.prems show ?thesis by auto
  qed
qed

lemma insert_actions_build:
  assumes "\<forall>d \<in> set delta. inserted reg d"
  shows "\<exists>sl'. insert_actions reg (Inr sl) delta = Inr sl'"
  using assms
proof (induction delta arbitrary: sl)
  case Nil
  then show ?case by (simp add: insert_actions_Nil)
next
  case (Cons d delta)
  from Cons.prems have "inserted reg d" by simp
  from insert_action_builds [OF this] obtain sl' where "insert_action reg sl d = Inr sl'" ..
  with Cons.IH [of sl'] Cons.prems show ?case by (simp add: insert_actions_Cons)
qed

lemma insert_actions_first_rejected:
  assumes "\<forall>x \<in> set pre. inserted reg x"
    and "\<not> accepted d"
  shows "insert_actions reg (Inr sl) (pre @ d # post) = Inl UnexpectedDeltaAction"
  using assms
proof (induction pre arbitrary: sl)
  case Nil
  then show ?case
    by (simp add: insert_actions_Cons insert_action_rejects insert_actions_Inl)
next
  case (Cons x pre)
  from Cons.prems have "inserted reg x" by simp
  from insert_action_builds [OF this] obtain sl' where sl': "insert_action reg sl x = Inr sl'" ..
  from Cons.prems have "insert_actions reg (Inr sl') (pre @ d # post) = Inl UnexpectedDeltaAction"
    by (intro Cons.IH) auto
  with sl' show ?case by (simp add: insert_actions_Cons)
qed

text \<open>
  Claim C9, as the code has it. Where some entry of the delta is not an insertion that
  \<open>if (action.insert)\<close> lets in (a retain, a delete, or an insert of a falsy value: the
  empty string, an embedded \<open>0\<close>, \<open>false\<close> or \<open>null\<close>), the reconstruction of the slot ends
  in an error, and the error is the unexpected delta action when everything before the
  first such entry was inserted. Where all entries are let in, the only error that can
  come out is one that the construction of an embedded component raised, and there is
  none where every embedded component can be built.
\<close>

theorem unexpected_delta_action:
  "((\<exists>d \<in> set delta. \<not> accepted d) \<longrightarrow>
      (\<exists>e. createLocalSlotBySharedSlot reg (YText attrs delta) = Inl e))
   \<and> (delta = pre @ d # post \<and> \<not> accepted d \<and> (\<forall>x \<in> set pre. inserted reg x) \<longrightarrow>
      createLocalSlotBySharedSlot reg (YText attrs delta) = Inl UnexpectedDeltaAction)
   \<and> ((\<forall>d \<in> set delta. accepted d) \<longrightarrow>
      (\<forall>e. createLocalSlotBySharedSlot reg (YText attrs delta) = Inl e \<longrightarrow>
         (\<exists>m a. DInsert (Inr m) a \<in> set delta
            \<and> createLocalComponentBySharedComponent reg m = Inl e)))
   \<and> ((\<forall>d \<in> set delta. inserted reg d) \<longrightarrow>
      (\<exists>sl. createLocalSlotBySharedSlot reg (YText attrs delta) = Inr sl))"
  unfolding createLocalSlotBySharedSlot_loop
  using insert_actions_raise insert_actions_first_rejected insert_actions_error
    insert_actions_build
  by blast

text \<open>
  A retain behind an insertion is rejected; a delta of one insertion of text gives a slot.
\<close>

theorem unexpected_delta_action_witness:
  "createLocalSlotBySharedSlot sample_registry
     (YText [(''__schema__'', JArr [JNum 1])] [DInsert (Inl ''a'') None, DRetain 1 None]) =
     Inl UnexpectedDeltaAction
   \<and> (\<exists>sl. createLocalSlotBySharedSlot sample_registry
        (YText [(''__schema__'', JArr [JNum 1])] [DInsert (Inl ''ab'') None]) = Inr sl)"
proof -
  have "createLocalSlotBySharedSlot sample_registry
     (YText [(''__schema__'', JArr [JNum 1])] [DInsert (Inl ''a'') None, DRetain 1 None]) =
     Inl UnexpectedDeltaAction"
    using unexpected_delta_action [where delta = "[DInsert (Inl ''a'') None, DRetain 1 None]"
        and pre = "[DInsert (Inl ''a'') None]" and d = "DRetain 1 None" and post = "[]"
        and reg = sample_registry and attrs = "[(''__schema__'', JArr [JNum 1])]"]
    by (simp add: accepted_def inserted_def insert_truthy_def insert_string_def)
  moreover have "\<exists>sl. createLocalSlotBySharedSlot sample_registry
        (YText [(''__schema__'', JArr [JNum 1])] [DInsert (Inl ''ab'') None]) = Inr sl"
    using unexpected_delta_action [where delta = "[DInsert (Inl ''ab'') None]"
        and reg = sample_registry and attrs = "[(''__schema__'', JArr [JNum 1])]"]
    by (simp add: accepted_def inserted_def insert_truthy_def insert_string_def)
  ultimately show ?thesis by simp
qed

text \<open>
  The claim as stated fails: a delta that consists of one insertion, of the embedded
  value \<open>0\<close>, raises the unexpected delta action.
\<close>

theorem embedded_zero_is_rejected:
  "createLocalSlotBySharedSlot sample_registry
     (YText [(''__schema__'', JArr [JNum 1])] [DInsert (Inr (SPlain (JNum 0))) None]) =
     Inl UnexpectedDeltaAction"
  by (simp add: obj_get_def insert_truthy_def truthy_def)

subsection \<open>The placeholder of an empty shared text\<close>

lemma attrs_of_opt: "attrs_of (attrs_opt a) = a"
  by (simp add: attrs_of_def attrs_opt_def)

lemma y_units_toDelta_char:
  "y_units (y_toDelta ((Inl c, a) # us)) = (Inl c, a) # y_units (y_toDelta us)"
  by (simp add: attrs_of_opt split: list.splits sdelta.splits sum.splits)

lemma y_units_toDelta: "y_units (y_toDelta us) = us"
proof (induction us)
  case Nil
  show ?case by simp
next
  case (Cons u us)
  obtain x a where u: "u = (x, a)" by (cases u)
  show ?case
  proof (cases x)
    case (Inl c)
    with u Cons show ?thesis by (simp only: y_units_toDelta_char)
  next
    case (Inr m)
    with u Cons show ?thesis by (simp add: attrs_of_opt)
  qed
qed

lemma ytext_length_insert:
  "ytext_length (ytext_insert i text a t) = ytext_length t + length text"
  by (auto simp add: ytext_length_def ytext_insert_def y_insert_def Let_def y_units_toDelta)

lemma ytext_length_insertEmbed:
  "ytext_length (ytext_insertEmbed i emb a t) = Suc (ytext_length t)"
  by (auto simp add: ytext_length_def ytext_insertEmbed_def y_insertEmbed_def Let_def
      y_units_toDelta)

lemma ytext_length_format: "ytext_length (ytext_format i n a t) = ytext_length t"
  by (auto simp add: ytext_length_def ytext_format_def y_format_def Let_def y_units_toDelta)

lemma ytext_length_setAttribute: "ytext_length (ytext_setAttribute k v t) = ytext_length t"
  by (simp add: ytext_length_def ytext_setAttribute_def)

lemma ytext_length_removeAttribute: "ytext_length (ytext_removeAttribute k t) = ytext_length t"
  by (simp add: ytext_length_def ytext_removeAttribute_def)

lemma ytext_units_empty: "(ytext_length t = 0) = (y_units (ydelta t) = [])"
  by (simp add: ytext_length_def)

lemma isEmpty_units:
  assumes "isEmpty t"
  shows "\<exists>a. y_units (ydelta t) = [(Inl (CHR 0x0A), a)]"
  using assms
  by (auto simp add: isEmpty_def emptyPlaceholder_def split: list.splits sdelta.splits)

lemma local_delete_not_empty:
  "ytext_length (snd (local_delete n st)) \<noteq> 0"
proof -
  have "ytext_length (ytext_insert 0 [CHR 0x0A] a t) \<noteq> 0" for a t
    by (simp only: ytext_length_insert) simp
  then show ?thesis
    by (simp add: local_delete_def Let_def del: One_nat_def)
qed

lemma y_insert_into_empty:
  assumes "y_units d = []"
  shows "y_insert 0 [c] a d = [DInsert (Inl [c]) (attrs_opt (given_attributes (attrs_of a)))]"
  using assms
  by (simp add: y_insert_def Let_def current_attributes_def attrs_of_def given_attributes_def
      split: option.splits)

lemma local_delete_placeholder:
  assumes "ytext_length (ytext_delete (fst st) n (snd st)) = 0"
  shows "ydelta (snd (local_delete n st)) =
     [DInsert (Inl [CHR 0x0A])
        (attrs_opt (given_attributes (attrs_of (first_attributes (ydelta (snd st))))))]"
proof (cases "ytext_length (snd st) = 0")
  case True
  then have "y_units (ydelta (snd st)) = []" by (simp add: ytext_length_def)
  from y_insert_into_empty [OF this] True show ?thesis
    by (simp add: local_delete_def Let_def ytext_insert_def del: One_nat_def)
next
  case False
  from assms have "y_units (ydelta (ytext_delete (fst st) n (snd st))) = []"
    by (simp add: ytext_length_def)
  from y_insert_into_empty [OF this] False assms show ?thesis
    by (simp add: local_delete_def Let_def ytext_insert_def del: One_nat_def)
qed

lemma local_contentInsert_replaces_placeholder:
  assumes "isEmpty t"
  shows "y_units (ydelta (snd (local_contentInsert c fmts (0, t)))) = inserted_units c fmts"
proof -
  from isEmpty_units [OF assms] obtain a where a: "y_units (ydelta t) = [(Inl (CHR 0x0A), a)]" ..
  show ?thesis
  proof (cases c)
    case (Inl s)
    show ?thesis
    proof (cases "s = []")
      case True
      with Inl assms a show ?thesis
        by (simp add: local_contentInsert_def Let_def inserted_units_def ytext_insert_def
            ytext_delete_def ytext_length_def y_insert_def y_delete_def y_units_toDelta)
    next
      case False
      with Inl assms a show ?thesis
        by (simp add: local_contentInsert_def Let_def inserted_units_def ytext_insert_def
            ytext_delete_def ytext_length_def y_insert_def y_delete_def y_units_toDelta)
    qed
  next
    case (Inr cmp)
    with assms a show ?thesis
      by (simp add: local_contentInsert_def Let_def inserted_units_def ytext_insertEmbed_def
          ytext_delete_def ytext_length_def y_insertEmbed_def y_delete_def y_units_toDelta
          attrs_of_opt)
  qed
qed

lemma local_contentInsert_not_empty:
  assumes "insert_length c \<noteq> 0"
  shows "ytext_length (snd (local_contentInsert c fmts st)) \<noteq> 0"
proof (cases "isEmpty (snd st) \<and> fst st = 0")
  case True
  then have "y_units (ydelta (snd (local_contentInsert c fmts st))) = inserted_units c fmts"
    using local_contentInsert_replaces_placeholder [of "snd st" c fmts] by (cases st) simp
  with assms show ?thesis
    by (simp add: ytext_units_empty inserted_units_def insert_length_def Let_def
        split: sum.splits)
next
  case False
  with assms show ?thesis
    by (cases c)
      (auto simp add: local_contentInsert_def Let_def ytext_length_insert
        ytext_length_insertEmbed insert_length_def)
qed

lemma local_action_not_empty:
  assumes "ytext_length (snd st) \<noteq> 0"
    and "\<forall>c f. action = ActContentInsert c f \<longrightarrow> insert_length c \<noteq> 0"
  shows "ytext_length (snd (local_action reg st action)) \<noteq> 0"
proof (cases action)
  case (ActRetain n f)
  with assms show ?thesis
    by (simp add: local_action_def local_retain_def Let_def ytext_length_format
        split: option.splits)
next
  case (ActContentInsert c f)
  with assms local_contentInsert_not_empty [of c f st] show ?thesis
    by (simp add: local_action_def)
next
  case (ActDelete n)
  then show ?thesis by (simp add: local_action_def local_delete_not_empty)
next
  case (ActAttrSet k v)
  with assms show ?thesis
    by (simp add: local_action_def ytext_length_setAttribute)
next
  case (ActAttrDelete k)
  with assms show ?thesis
    by (simp add: local_action_def ytext_length_removeAttribute)
qed

lemma foldl_local_action_not_empty:
  assumes "ytext_length (snd st) \<noteq> 0"
    and "\<forall>c f. ActContentInsert c f \<in> set acts \<longrightarrow> insert_length c \<noteq> 0"
  shows "ytext_length (snd (foldl (local_action reg) st acts)) \<noteq> 0"
  using assms
proof (induction acts arbitrary: st)
  case Nil
  then show ?case by simp
next
  case (Cons a acts)
  from Cons.prems have "ytext_length (snd (local_action reg st a)) \<noteq> 0"
    by (intro local_action_not_empty) auto
  with Cons.prems show ?case by (simp add: Cons.IH)
qed

text \<open>
  Claim C10. After a local delete the shared text is never empty: where the delete leaves
  no unit, the text is then the single line feed with the attributes of the first entry of
  the delta before the delete (an attribute of value null being none). A local insert at
  offset 0 into a text that holds only the placeholder leaves exactly the inserted units:
  the placeholder is deleted and does not stay beside the content. A content insert of a
  slot carries the content that was inserted, at least one unit: such an insert never
  leaves the text empty, and no list of local actions with such inserts empties a text
  that was not empty.
\<close>

theorem local_actions_keep_placeholder:
  "ytext_length (snd (local_action reg st (ActDelete n))) \<noteq> 0
   \<and> (ytext_length (ytext_delete (fst st) n (snd st)) = 0 \<longrightarrow>
        ydelta (snd (local_action reg st (ActDelete n))) =
          [DInsert (Inl [CHR 0x0A])
             (attrs_opt (given_attributes (attrs_of (first_attributes (ydelta (snd st))))))])
   \<and> (isEmpty t \<longrightarrow>
        y_units (ydelta (snd (local_action reg (0, t) (ActContentInsert c fmts)))) =
          inserted_units c fmts)
   \<and> (insert_length c \<noteq> 0 \<longrightarrow>
        ytext_length (snd (local_action reg st (ActContentInsert c fmts))) \<noteq> 0)
   \<and> (ytext_length t \<noteq> 0
        \<and> (\<forall>c f. ActContentInsert c f \<in> set acts \<longrightarrow> insert_length c \<noteq> 0) \<longrightarrow>
        ytext_length (local_actions reg acts t) \<noteq> 0)"
  using local_delete_not_empty [of n st] local_delete_placeholder [of st n]
    local_contentInsert_replaces_placeholder [of t c fmts]
    local_contentInsert_not_empty [of c fmts st]
    foldl_local_action_not_empty [of "(0, t)" acts reg]
  by (simp add: local_action_def local_actions_def)

text \<open>
  Deleting the three bold characters of a text leaves a bold line feed; inserting three
  characters into the text of the placeholder leaves the three characters.
\<close>

theorem local_actions_keep_placeholder_witness:
  "local_actions sample_registry [ActDelete 3]
     (YText [] [DInsert (Inl ''abc'') (Some [(''bold'', JBool True)])]) =
     YText [] [DInsert (Inl [CHR 0x0A]) (Some [(''bold'', JBool True)])]
   \<and> local_actions sample_registry [ActContentInsert (Inl ''abc'') None]
       (YText [] [DInsert (Inl emptyPlaceholder) None]) =
     YText [] [DInsert (Inl ''abc'') None]"
  using local_actions_keep_placeholder [where reg = sample_registry
      and st = "(0, YText [] [DInsert (Inl ''abc'') (Some [(''bold'', JBool True)])])"
      and n = 3 and t = "YText [] [DInsert (Inl emptyPlaceholder) None]"
      and c = "Inl ''abc''" and fmts = None and acts = "[]"]
  by (simp add: local_actions_def local_action_def local_delete_def local_contentInsert_def
      isEmpty_def emptyPlaceholder_def ytext_length_def ytext_delete_def ytext_insert_def
      y_delete_def y_insert_def current_attributes_def given_attributes_def first_attributes_def
      attrs_of_def attrs_opt_def insert_length_def inserted_units_def Let_def)

subsection \<open>The round trip of the tree materializer\<close>

lemma obj_set_fresh:
  assumes "key \<notin> fst ` set obj"
  shows "obj_set key v obj = obj @ [(key, v)]"
  using assms by (induction obj) auto

lemma foldl_obj_set:
  assumes "distinct (map fst base @ map fst xs)"
  shows "foldl (\<lambda>obj item. obj_set (fst item) (f item) obj) base xs =
     base @ map (\<lambda>item. (fst item, f item)) xs"
  using assms
proof (induction xs arbitrary: base)
  case Nil
  then show ?case by simp
next
  case (Cons x xs)
  from Cons.prems have fresh: "fst x \<notin> fst ` set base" by auto
  from Cons.prems have "distinct (map fst (base @ [(fst x, f x)]) @ map fst xs)" by auto
  from Cons.IH [OF this] show ?case by (simp add: obj_set_fresh [OF fresh])
qed

lemma foldl_obj_set_formats:
  assumes "distinct (map fst fs)"
  shows "foldl (\<lambda>obj item. obj_set (fst item) (snd item) obj) [] fs = fs"
  using foldl_obj_set [of "[]" fs snd] assms by simp

lemma given_attributes_id:
  assumes "\<forall>f \<in> set fs. snd f \<noteq> JNull"
  shows "given_attributes fs = fs"
  using assms by (simp add: given_attributes_def)

lemma foldl_formats:
  assumes "\<forall>f \<in> set fs. fst f \<in> set (formatterNames reg)"
  shows "foldl (\<lambda>formats p.
            case getFormatter reg (fst p) of
              Some formatter \<Rightarrow> formats @ [(formatter, snd p)]
            | None \<Rightarrow> formats) acc fs = acc @ fs"
  using assms by (induction fs arbitrary: acc) (simp_all add: getFormatter_def)

lemma remoteFormatsToLocal_id:
  assumes "\<forall>f \<in> set fs. fst f \<in> set (formatterNames reg)"
  shows "remoteFormatsToLocal reg (attrs_opt fs) = fs"
  using foldl_formats [OF assms, of "[]"]
  by (simp add: remoteFormatsToLocal_def attrs_opt_def)

lemma share_step_units:
  assumes "run_ok reg r"
  shows "share_step (YText a (y_toDelta us), length us) r =
     (YText a (y_toDelta (us @ shared_units r)), length (us @ shared_units r))"
proof -
  from assms obtain fs where fs: "snd r = Some fs" and wf: "well_formed_formats reg fs"
    by (auto simp add: run_ok_def split: option.splits)
  from wf have 1: "foldl (\<lambda>obj item. obj_set (fst item) (snd item) obj) [] fs = fs"
    by (simp add: well_formed_formats_def foldl_obj_set_formats)
  from wf have 2: "given_attributes fs = fs"
    by (simp add: well_formed_formats_def given_attributes_id)
  show ?thesis
  proof (cases "fst r")
    case (Inl s)
    with fs 1 2 show ?thesis
      by (cases "s = []")
        (simp_all add: share_step_def shared_units_def ytext_insert_def y_insert_def Let_def
          y_units_toDelta attrs_of_def insert_length_def)
  next
    case (Inr c)
    with fs 1 2 show ?thesis
      by (simp add: share_step_def shared_units_def ytext_insertEmbed_def y_insertEmbed_def
          Let_def y_units_toDelta attrs_of_def insert_length_def)
  qed
qed

lemma foldl_share_step:
  assumes "\<forall>r \<in> set runs. run_ok reg r"
  shows "foldl share_step (YText a (y_toDelta us), length us) runs =
     (YText a (y_toDelta (us @ concat (map shared_units runs))),
      length (us @ concat (map shared_units runs)))"
  using assms
proof (induction runs arbitrary: us)
  case Nil
  then show ?case by simp
next
  case (Cons r runs)
  from Cons.prems have "run_ok reg r" by simp
  from share_step_units [OF this] Cons.IH [of "us @ shared_units r"] Cons.prems
  show ?case by simp
qed

lemma foldl_setAttribute:
  "foldl (\<lambda>t item. ytext_setAttribute (fst item) (snd item) t) (YText a d) attrs =
     YText (foldl (\<lambda>obj item. obj_set (fst item) (snd item) obj) a attrs) d"
  by (induction attrs arbitrary: a) (simp_all add: ytext_setAttribute_def)

lemma createSharedSlotByLocalSlot_units:
  assumes "\<forall>r \<in> set runs. run_ok reg r"
    and "distinct (map fst attrs)" and "''__schema__'' \<notin> fst ` set attrs"
  shows "createSharedSlotByLocalSlot (Slot sch runs attrs idx) =
     YText ((''__schema__'', JArr sch) # attrs) (y_toDelta (concat (map shared_units runs)))"
proof -
  have loop: "createSharedSlotByLocalSlot (Slot sch runs attrs idx) =
      foldl (\<lambda>t item. ytext_setAttribute (fst item) (snd item) t)
        (fst (foldl share_step (YText [(''__schema__'', JArr sch)] (y_toDelta []), length ([]::yunit list)) runs))
        attrs"
    by (simp add: share_step_def [abs_def] Let_def ytext_setAttribute_def)
  from assms(2,3) have "distinct (map fst [(''__schema__'', JArr sch)] @ map fst attrs)" by auto
  from foldl_obj_set [OF this, of snd]
  have "foldl (\<lambda>obj item. obj_set (fst item) (snd item) obj) [(''__schema__'', JArr sch)] attrs =
      (''__schema__'', JArr sch) # attrs" by simp
  then show ?thesis
    unfolding loop foldl_share_step [OF assms(1)]
    by (simp add: foldl_setAttribute)
qed

lemma take_content_all:
  assumes "\<forall>r \<in> set rs. insert_length (fst r) \<noteq> 0"
  shows "take_content (total_length rs) rs = rs"
  using assms
proof (induction rs)
  case Nil
  show ?case by (simp add: total_length_def)
next
  case (Cons r rs)
  obtain x f where r: "r = (x, f)" by (cases r)
  from Cons have ih: "take_content (total_length rs) rs = rs" by simp
  show ?case
  proof (cases x)
    case (Inl s)
    with r Cons.prems ih show ?thesis by (simp add: total_length_def insert_length_def)
  next
    case (Inr c)
    with r Cons.prems ih show ?thesis by (simp add: total_length_def insert_length_def)
  qed
qed

lemma drop_content_all:
  assumes "\<forall>r \<in> set rs. insert_length (fst r) \<noteq> 0"
  shows "drop_content (total_length rs) rs = []"
  using assms
proof (induction rs)
  case Nil
  show ?case by (simp add: total_length_def)
next
  case (Cons r rs)
  obtain x f where r: "r = (x, f)" by (cases r)
  from Cons have ih: "drop_content (total_length rs) rs = []" by simp
  show ?case
  proof (cases x)
    case (Inl s)
    with r Cons.prems ih show ?thesis by (simp add: total_length_def insert_length_def)
  next
    case (Inr c)
    with r Cons.prems ih show ?thesis by (simp add: total_length_def insert_length_def)
  qed
qed

lemma slot_insert_at_end:
  assumes "\<forall>r \<in> set rs. insert_length (fst r) \<noteq> 0"
  shows "slot_insert c fs (Slot sch rs at (total_length rs)) =
     Slot sch (rs @ [(c, Some fs)]) at (total_length (rs @ [(c, Some fs)]))"
  using take_content_all [OF assms] drop_content_all [OF assms]
  by (simp add: slot_insert_def) (simp add: total_length_def)

lemma local_run_length:
  assumes "accepted d"
  shows "insert_length (fst (local_run reg d)) \<noteq> 0"
  using assms
  by (auto simp add: accepted_def insert_truthy_def local_run_def insert_length_def
      split: sdelta.splits sum.splits)

lemma component_of_map:
  assumes "createLocalComponentBySharedComponent reg m = Inr c"
  shows "\<exists>entries. m = OfYMap (YMap entries)"
proof (cases m)
  case (OfYMap ym)
  then show ?thesis by (cases ym) simp
next
  case (OfYArray ya)
  with assms show ?thesis by simp
next
  case (OfYText t)
  with assms show ?thesis by simp
next
  case (SPlain v)
  with assms show ?thesis by simp
qed

lemma insert_action_at_end:
  assumes "accepted d"
    and "\<forall>m a. d = DInsert (Inr m) a \<longrightarrow> (\<exists>c. createLocalComponentBySharedComponent reg m = Inr c)"
    and "\<forall>r \<in> set rs. insert_length (fst r) \<noteq> 0"
  shows "insert_action reg (Slot sch rs at (total_length rs)) d =
     Inr (Slot sch (rs @ [local_run reg d]) at (total_length (rs @ [local_run reg d])))"
proof (cases d)
  case (DInsert ins a)
  show ?thesis
  proof (cases ins)
    case (Inl s)
    with DInsert assms(1) slot_insert_at_end [OF assms(3)] show ?thesis
      by (simp add: insert_action_def local_run_def accepted_def insert_string_def)
  next
    case (Inr m)
    with DInsert assms(2) obtain c where c: "createLocalComponentBySharedComponent reg m = Inr c"
      by auto
    from component_of_map [OF c] obtain entries where "m = OfYMap (YMap entries)" ..
    with c Inr DInsert slot_insert_at_end [OF assms(3)] show ?thesis
      by (simp add: insert_action_def local_run_def insert_truthy_def insert_string_def
          insert_embedded_def)
  qed
next
  case (DRetain n a)
  with assms(1) show ?thesis by (simp add: accepted_def)
next
  case (DDelete n)
  with assms(1) show ?thesis by (simp add: accepted_def)
qed

lemma insert_actions_at_end:
  assumes "\<forall>d \<in> set ds. accepted d"
    and "\<forall>m a. DInsert (Inr m) a \<in> set ds \<longrightarrow>
           (\<exists>c. createLocalComponentBySharedComponent reg m = Inr c)"
    and "\<forall>r \<in> set rs. insert_length (fst r) \<noteq> 0"
  shows "insert_actions reg (Inr (Slot sch rs at (total_length rs))) ds =
     Inr (Slot sch (rs @ map (local_run reg) ds) at (total_length (rs @ map (local_run reg) ds)))"
  using assms
proof (induction ds arbitrary: rs)
  case Nil
  then show ?case by (simp add: insert_actions_def)
next
  case (Cons d ds)
  from Cons.prems have d: "accepted d"
    and c: "\<forall>m a. d = DInsert (Inr m) a \<longrightarrow> (\<exists>c. createLocalComponentBySharedComponent reg m = Inr c)"
    by auto
  from Cons.prems local_run_length [OF d, of reg]
  have pos: "\<forall>r \<in> set (rs @ [local_run reg d]). insert_length (fst r) \<noteq> 0" by auto
  from Cons.prems have "\<forall>d \<in> set ds. accepted d"
    and "\<forall>m a. DInsert (Inr m) a \<in> set ds \<longrightarrow>
           (\<exists>c. createLocalComponentBySharedComponent reg m = Inr c)" by auto
  from Cons.IH [OF this pos] insert_action_at_end [OF d c Cons.prems(3)]
  show ?case by (simp add: insert_actions_Cons)
qed

lemma y_toDelta_char:
  "(\<exists>s ds. y_toDelta us = DInsert (Inl s) (attrs_opt a) # ds
       \<and> y_toDelta ((Inl c, a) # us) = DInsert (Inl (c # s)) (attrs_opt a) # ds)
   \<or> y_toDelta ((Inl c, a) # us) = DInsert (Inl [c]) (attrs_opt a) # y_toDelta us"
  by (simp split: list.splits sdelta.splits sum.splits)

lemma y_toDelta_inserts:
  "\<forall>d \<in> set (y_toDelta us). \<exists>ins a. d = DInsert ins a \<and> ins \<noteq> Inl []"
proof (induction us)
  case Nil
  then show ?case by simp
next
  case (Cons u us)
  obtain x a where u: "u = (x, a)" by (cases u)
  show ?case
  proof (cases x)
    case (Inl c)
    from y_toDelta_char [of us a c] Cons show ?thesis
      unfolding u Inl by (elim disjE exE conjE) simp_all
  next
    case (Inr m)
    with u Cons show ?thesis by simp
  qed
qed

lemma y_toDelta_accepted:
  assumes "\<forall>m a. DInsert (Inr m) a \<in> set (y_toDelta us) \<longrightarrow>
      (\<exists>c. createLocalComponentBySharedComponent reg m = Inr c)"
  shows "\<forall>d \<in> set (y_toDelta us). accepted d"
proof
  fix d
  assume d: "d \<in> set (y_toDelta us)"
  with y_toDelta_inserts obtain ins a where da: "d = DInsert ins a" and ne: "ins \<noteq> Inl []"
    by blast
  show "accepted d"
  proof (cases ins)
    case (Inl s)
    with da ne show ?thesis by (simp add: accepted_def insert_truthy_def)
  next
    case (Inr m)
    with d da assms obtain c where "createLocalComponentBySharedComponent reg m = Inr c"
      by blast
    from component_of_map [OF this] Inr da show ?thesis
      by (auto simp add: accepted_def insert_truthy_def)
  qed
qed

lemma y_toDelta_embeds:
  "DInsert (Inr m) a \<in> set (y_toDelta us) \<Longrightarrow> \<exists>b. (Inr m, b) \<in> set us"
proof (induction us)
  case Nil
  then show ?case by simp
next
  case (Cons u us)
  obtain x b where u: "u = (x, b)" by (cases u)
  show ?case
  proof (cases x)
    case (Inl c)
    from y_toDelta_char [of us b c] Cons show ?thesis
      unfolding u Inl by (elim disjE exE conjE) auto
  next
    case (Inr m')
    with u Cons show ?thesis by auto
  qed
qed

lemma flat_content_Cons:
  "flat_content (r # rs) =
     (case fst r of
        Inl s \<Rightarrow> map (\<lambda>ch. (Inl [ch], snd r)) s
      | Inr c \<Rightarrow> [(Inr (flat_component c), snd r)]) @ flat_content rs"
  by (simp add: flat_content_def)

lemma flat_content_toDelta_char:
  "flat_content (map (local_run reg) (y_toDelta ((Inl c, a) # us))) =
     flat_unit reg (Inl c, a) # flat_content (map (local_run reg) (y_toDelta us))"
  using y_toDelta_char [of us a c]
  by (elim disjE exE conjE) (simp_all add: flat_content_Cons local_run_def flat_unit_def)

lemma flat_content_toDelta:
  "flat_content (map (local_run reg) (y_toDelta us)) = map (flat_unit reg) us"
proof (induction us)
  case Nil
  show ?case by (simp add: flat_content_def)
next
  case (Cons u us)
  obtain x a where u: "u = (x, a)" by (cases u)
  show ?case
  proof (cases x)
    case (Inl c)
    with u Cons show ?thesis by (simp only: flat_content_toDelta_char) simp
  next
    case (Inr m)
    with u Cons show ?thesis
      by (simp add: flat_content_Cons local_run_def flat_unit_def)
  qed
qed

lemma foldl_slot_setAttribute:
  assumes "distinct (map fst (acc @ attrs))"
    and "\<forall>p \<in> set attrs. fst p \<in> set (attributeNames reg)"
  shows "foldl (\<lambda>sl p.
        case getAttribute reg (fst p) of
          Some attribute \<Rightarrow> slot_setAttribute attribute (snd p) sl
        | None \<Rightarrow> sl) (Slot sch [] acc 0) attrs = Slot sch [] (acc @ attrs) 0"
  using assms
proof (induction attrs arbitrary: acc)
  case Nil
  then show ?case by simp
next
  case (Cons p attrs)
  from Cons.prems have fresh: "fst p \<notin> fst ` set acc" by auto
  from Cons.prems have "distinct (map fst ((acc @ [p]) @ attrs))" by auto
  from Cons.IH [OF this] Cons.prems(2) show ?case
    by (simp add: getAttribute_def slot_setAttribute_def obj_set_fresh [OF fresh])
qed

lemma new_slot_schema:
  assumes "distinct (map fst attrs)"
    and "\<forall>p \<in> set attrs. fst p \<in> set (attributeNames reg)"
    and "''__schema__'' \<notin> set (attributeNames reg)"
  shows "new_slot reg ((''__schema__'', JArr sch) # attrs) = Slot sch [] attrs 0"
  using foldl_slot_setAttribute [of "[]" attrs reg sch] assms
  by (simp add: new_slot_def obj_get_def getAttribute_def)

lemma flat_slot_content:
  "flat_slot (Slot sch runs attrs idx) = Slot sch (flat_content runs) attrs 0"
  by (simp add: flat_content_def)

lemma flat_unit_shared_units:
  assumes "run_ok reg r"
    and "\<forall>c. fst r = Inr c \<longrightarrow>
      (\<exists>c'. createLocalComponentBySharedComponent reg
               (OfYMap (createSharedComponentByLocalComponent c)) = Inr c'
           \<and> flat_component c' = flat_component c)"
  shows "map (flat_unit reg) (shared_units r) =
     (case fst r of
        Inl s \<Rightarrow> map (\<lambda>ch. (Inl [ch], snd r)) s
      | Inr c \<Rightarrow> [(Inr (flat_component c), snd r)])"
proof -
  from assms(1) obtain fs where fs: "snd r = Some fs" and wf: "well_formed_formats reg fs"
    by (auto simp add: run_ok_def split: option.splits)
  from wf have rf: "remoteFormatsToLocal reg (attrs_opt fs) = fs"
    by (simp add: well_formed_formats_def remoteFormatsToLocal_id)
  show ?thesis
  proof (cases "fst r")
    case (Inl s)
    with fs rf show ?thesis
      by (simp add: shared_units_def flat_unit_def attrs_of_def)
  next
    case (Inr c)
    with assms(2) obtain c' where
      "createLocalComponentBySharedComponent reg
         (OfYMap (createSharedComponentByLocalComponent c)) = Inr c'"
      and "flat_component c' = flat_component c" by auto
    with Inr fs rf show ?thesis
      by (simp add: shared_units_def flat_unit_def attrs_of_def)
  qed
qed

lemma flat_unit_concat:
  assumes "\<forall>r \<in> set runs. run_ok reg r"
    and "\<forall>r \<in> set runs. \<forall>c. fst r = Inr c \<longrightarrow>
      (\<exists>c'. createLocalComponentBySharedComponent reg
               (OfYMap (createSharedComponentByLocalComponent c)) = Inr c'
           \<and> flat_component c' = flat_component c)"
  shows "map (flat_unit reg) (concat (map shared_units runs)) = flat_content runs"
  using assms
proof (induction runs)
  case Nil
  show ?case by (simp add: flat_content_def)
next
  case (Cons r runs)
  from Cons.prems have "run_ok reg r"
    and "\<forall>c. fst r = Inr c \<longrightarrow>
      (\<exists>c'. createLocalComponentBySharedComponent reg
               (OfYMap (createSharedComponentByLocalComponent c)) = Inr c'
           \<and> flat_component c' = flat_component c)" by auto
  from flat_unit_shared_units [OF this] Cons show ?case
    by (simp add: flat_content_Cons)
qed

lemma shared_units_embed:
  assumes "(Inr m, b) \<in> set (concat (map shared_units runs))"
  shows "\<exists>r \<in> set runs. \<exists>c. fst r = Inr c \<and> m = OfYMap (createSharedComponentByLocalComponent c)"
proof -
  from assms obtain r where r: "r \<in> set runs" and m: "(Inr m, b) \<in> set (shared_units r)"
    by auto
  from m have "\<exists>c. fst r = Inr c \<and> m = OfYMap (createSharedComponentByLocalComponent c)"
    by (cases "fst r") (auto simp add: shared_units_def)
  with r show ?thesis by blast
qed

lemma slot_round_trip:
  assumes wf: "well_formed_slot reg (Slot sch runs attrs idx)"
    and ih: "\<forall>r \<in> set runs. \<forall>c. fst r = Inr c \<longrightarrow>
      (\<exists>c'. createLocalComponentBySharedComponent reg
               (OfYMap (createSharedComponentByLocalComponent c)) = Inr c'
           \<and> flat_component c' = flat_component c)"
  shows "\<exists>s'. createLocalSlotBySharedSlot reg
                 (createSharedSlotByLocalSlot (Slot sch runs attrs idx)) = Inr s'
            \<and> flat_slot s' = flat_slot (Slot sch runs attrs idx)"
proof -
  let ?U = "concat (map shared_units runs)"
  from wf have ok: "\<forall>r \<in> set runs. run_ok reg r"
    and d: "distinct (map fst attrs)"
    and reg: "\<forall>p \<in> set attrs. fst p \<in> set (attributeNames reg)"
    and sch: "''__schema__'' \<notin> set (attributeNames reg)"
    by (auto simp add: run_ok_def)
  from reg sch have "''__schema__'' \<notin> fst ` set attrs" by auto
  from createSharedSlotByLocalSlot_units [OF ok d this]
  have shared: "createSharedSlotByLocalSlot (Slot sch runs attrs idx) =
      YText ((''__schema__'', JArr sch) # attrs) (y_toDelta ?U)" .
  have emb: "\<forall>m a. DInsert (Inr m) a \<in> set (y_toDelta ?U) \<longrightarrow>
      (\<exists>c. createLocalComponentBySharedComponent reg m = Inr c)"
  proof (intro allI impI)
    fix m a
    assume "DInsert (Inr m) a \<in> set (y_toDelta ?U)"
    from y_toDelta_embeds [OF this] obtain b where "(Inr m, b) \<in> set ?U" ..
    from shared_units_embed [OF this] ih
    show "\<exists>c. createLocalComponentBySharedComponent reg m = Inr c" by blast
  qed
  have "\<forall>r \<in> set ([]::((string + component) \<times> formats option) list). insert_length (fst r) \<noteq> 0"
    by simp
  from insert_actions_at_end [OF y_toDelta_accepted [OF emb] emb this, of sch attrs]
  have "createLocalSlotBySharedSlot reg (createSharedSlotByLocalSlot (Slot sch runs attrs idx)) =
      Inr (Slot sch (map (local_run reg) (y_toDelta ?U)) attrs
             (total_length (map (local_run reg) (y_toDelta ?U))))"
    unfolding shared createLocalSlotBySharedSlot_loop new_slot_schema [OF d reg sch]
    by (simp add: total_length_def)
  moreover have "flat_slot (Slot sch (map (local_run reg) (y_toDelta ?U)) attrs
             (total_length (map (local_run reg) (y_toDelta ?U)))) =
      flat_slot (Slot sch runs attrs idx)"
    unfolding flat_slot_content flat_content_toDelta flat_unit_concat [OF ok ih] ..
  ultimately show ?thesis by blast
qed

lemma createSharedMapByLocalMap_entries:
  assumes "distinct (map fst entries)"
  shows "createSharedMapByLocalMap (MapModel entries) =
     YMap (map (\<lambda>kv. (fst kv, createSharedModelByLocalModel (snd kv))) entries)"
  using foldl_obj_set [of "[]" entries "\<lambda>kv. createSharedModelByLocalModel (snd kv)"] assms
  by simp

lemma createSharedArrayByLocalArray_items:
  "createSharedArrayByLocalArray (ArrayModel items) =
     YArray (map createSharedModelByLocalModel items)"
proof -
  have "foldl (\<lambda>sharedArray v. sharedArray @ [createSharedModelByLocalModel v]) acc items =
      acc @ map createSharedModelByLocalModel items" for acc
    by (induction items arbitrary: acc) simp_all
  then show ?thesis by simp
qed

lemma foldl_local_map:
  assumes "distinct (map fst acc @ map fst es)"
    and "\<forall>kv \<in> set es. \<exists>v. f (snd kv) = Inr v"
  shows "foldl (\<lambda>acc kv.
             case acc of
               Inl e \<Rightarrow> Inl e
             | Inr localMap \<Rightarrow>
                 (case f (snd kv) of
                    Inl e \<Rightarrow> Inl e
                  | Inr v \<Rightarrow> Inr (obj_set (fst kv) v localMap)))
            (Inr acc) es =
     Inr (acc @ map (\<lambda>kv. (fst kv, projr (f (snd kv)))) es)"
  using assms
proof (induction es arbitrary: acc)
  case Nil
  then show ?case by simp
next
  case (Cons kv es)
  from Cons.prems obtain v where v: "f (snd kv) = Inr v" by auto
  from Cons.prems have fresh: "fst kv \<notin> fst ` set acc" by auto
  from Cons.prems have "distinct (map fst (acc @ [(fst kv, v)]) @ map fst es)" by auto
  from Cons.IH [OF this] Cons.prems(2) v show ?case
    by (simp add: obj_set_fresh [OF fresh])
qed

lemma foldl_local_array:
  assumes "\<forall>x \<in> set xs. \<exists>v. f x = Inr v"
  shows "foldl (\<lambda>acc item.
             case acc of
               Inl e \<Rightarrow> Inl e
             | Inr localArray \<Rightarrow>
                 (case f item of
                    Inl e \<Rightarrow> Inl e
                  | Inr v \<Rightarrow> Inr (localArray @ [v])))
            (Inr acc) xs =
     Inr (acc @ map (\<lambda>x. projr (f x)) xs)"
  using assms
proof (induction xs arbitrary: acc)
  case Nil
  then show ?case by simp
next
  case (Cons x xs)
  from Cons.prems obtain v where v: "f x = Inr v" by auto
  from Cons.IH [of "acc @ [v]"] Cons.prems v show ?case by simp
qed

lemma map_round_trip:
  assumes d: "distinct (map fst entries)"
    and ih: "\<forall>kv \<in> set entries.
      \<exists>v'. createLocalModelBySharedByModel reg (createSharedModelByLocalModel (snd kv)) = Inr v'
          \<and> flat v' = flat (snd kv)"
  shows "\<exists>m'. createLocalMapBySharedMap reg (createSharedMapByLocalMap (MapModel entries)) = Inr m'
            \<and> flat_map m' = flat_map (MapModel entries)"
proof -
  let ?es = "map (\<lambda>kv. (fst kv, createSharedModelByLocalModel (snd kv))) entries"
  from d have 1: "distinct (map fst [] @ map fst ?es)" by (simp add: o_def)
  from ih have 2: "\<forall>kv \<in> set ?es. \<exists>v. createLocalModelBySharedByModel reg (snd kv) = Inr v"
    by auto
  from foldl_local_map [OF 1 2]
  have "createLocalMapBySharedMap reg (createSharedMapByLocalMap (MapModel entries)) =
      Inr (MapModel (map (\<lambda>kv. (fst kv, projr (createLocalModelBySharedByModel reg (snd kv)))) ?es))"
    unfolding createSharedMapByLocalMap_entries [OF d] by simp
  moreover from ih have "flat_map (MapModel (map (\<lambda>kv. (fst kv,
        projr (createLocalModelBySharedByModel reg (snd kv)))) ?es)) = flat_map (MapModel entries)"
    by (auto simp add: comp_def)
  ultimately show ?thesis by blast
qed

lemma array_round_trip:
  assumes ih: "\<forall>x \<in> set items.
      \<exists>v'. createLocalModelBySharedByModel reg (createSharedModelByLocalModel x) = Inr v'
          \<and> flat v' = flat x"
  shows "\<exists>a'. createLocalArrayBySharedArray reg (createSharedArrayByLocalArray (ArrayModel items)) =
               Inr a'
            \<and> flat_array a' = flat_array (ArrayModel items)"
proof -
  let ?xs = "map createSharedModelByLocalModel items"
  from ih have 2: "\<forall>x \<in> set ?xs. \<exists>v. createLocalModelBySharedByModel reg x = Inr v" by auto
  from foldl_local_array [OF 2, of "[]"]
  have "createLocalArrayBySharedArray reg (createSharedArrayByLocalArray (ArrayModel items)) =
      Inr (ArrayModel (map (\<lambda>x. projr (createLocalModelBySharedByModel reg x)) ?xs))"
    unfolding createSharedArrayByLocalArray_items by simp
  moreover from ih have "flat_array (ArrayModel (map (\<lambda>x.
        projr (createLocalModelBySharedByModel reg x)) ?xs)) = flat_array (ArrayModel items)"
    by (auto simp add: comp_def)
  ultimately show ?thesis by blast
qed

lemma component_round_trip:
  assumes "nm \<in> set (componentNames reg)"
    and "\<exists>m'. createLocalMapBySharedMap reg (createSharedMapByLocalMap st) = Inr m'
            \<and> flat_map m' = flat_map st"
  shows "\<exists>c'. createLocalComponentBySharedComponent reg
                 (OfYMap (createSharedComponentByLocalComponent (Component nm st))) = Inr c'
            \<and> flat_component c' = flat_component (Component nm st)"
  using assms by (auto simp add: obj_get_def)

lemma round_trip_all:
  shows "well_formed reg m \<longrightarrow>
      (\<exists>m'. createLocalModelBySharedByModel reg (createSharedModelByLocalModel m) = Inr m'
           \<and> flat m' = flat m)"
    and "well_formed_map reg mp \<longrightarrow>
      (\<exists>m'. createLocalMapBySharedMap reg (createSharedMapByLocalMap mp) = Inr m'
           \<and> flat_map m' = flat_map mp)"
    and "well_formed_array reg ar \<longrightarrow>
      (\<exists>a'. createLocalArrayBySharedArray reg (createSharedArrayByLocalArray ar) = Inr a'
           \<and> flat_array a' = flat_array ar)"
    and "well_formed_slot reg s \<longrightarrow>
      (\<exists>s'. createLocalSlotBySharedSlot reg (createSharedSlotByLocalSlot s) = Inr s'
           \<and> flat_slot s' = flat_slot s)"
    and "well_formed_component reg c \<longrightarrow>
      (\<exists>c'. createLocalComponentBySharedComponent reg
               (OfYMap (createSharedComponentByLocalComponent c)) = Inr c'
           \<and> flat_component c' = flat_component c)"
proof (induction m and mp and ar and s and c)
  case (OfMap x)
  then show ?case by auto
next
  case (OfArray x)
  then show ?case by auto
next
  case (OfSlot x)
  then show ?case by auto
next
  case (Plain x)
  show ?case by simp
next
  case (MapModel entries)
  show ?case
  proof
    assume wf: "well_formed_map reg (MapModel entries)"
    then have d: "distinct (map fst entries)" by simp
    have "\<forall>kv \<in> set entries.
      \<exists>v'. createLocalModelBySharedByModel reg (createSharedModelByLocalModel (snd kv)) = Inr v'
          \<and> flat v' = flat (snd kv)"
    proof
      fix kv assume kv: "kv \<in> set entries"
      with wf have "well_formed reg (snd kv)" by simp
      moreover have "snd kv \<in> Basic_BNFs.snds kv" by (cases kv) simp
      ultimately show "\<exists>v'. createLocalModelBySharedByModel reg
            (createSharedModelByLocalModel (snd kv)) = Inr v' \<and> flat v' = flat (snd kv)"
        using MapModel [OF kv] by blast
    qed
    from map_round_trip [OF d this]
    show "\<exists>m'. createLocalMapBySharedMap reg (createSharedMapByLocalMap (MapModel entries)) = Inr m'
            \<and> flat_map m' = flat_map (MapModel entries)" .
  qed
next
  case (ArrayModel items)
  show ?case
  proof
    assume wf: "well_formed_array reg (ArrayModel items)"
    have "\<forall>x \<in> set items.
      \<exists>v'. createLocalModelBySharedByModel reg (createSharedModelByLocalModel x) = Inr v'
          \<and> flat v' = flat x"
      using wf ArrayModel by auto
    from array_round_trip [OF this]
    show "\<exists>a'. createLocalArrayBySharedArray reg
              (createSharedArrayByLocalArray (ArrayModel items)) = Inr a'
            \<and> flat_array a' = flat_array (ArrayModel items)" .
  qed
next
  case (Slot sch runs attrs idx)
  show ?case
  proof
    assume wf: "well_formed_slot reg (Slot sch runs attrs idx)"
    have "\<forall>r \<in> set runs. \<forall>c. fst r = Inr c \<longrightarrow>
      (\<exists>c'. createLocalComponentBySharedComponent reg
               (OfYMap (createSharedComponentByLocalComponent c)) = Inr c'
           \<and> flat_component c' = flat_component c)"
    proof (intro ballI allI impI)
      fix r c assume r: "r \<in> set runs" and c: "fst r = Inr c"
      from wf r c have "well_formed_component reg c" by (auto split: sum.splits)
      moreover from c have "fst r \<in> Basic_BNFs.fsts r" by (cases r) simp
      moreover from c have "c \<in> Basic_BNFs.setr (fst r)" by (simp add: setr.simps)
      ultimately show "\<exists>c'. createLocalComponentBySharedComponent reg
               (OfYMap (createSharedComponentByLocalComponent c)) = Inr c'
           \<and> flat_component c' = flat_component c"
        using Slot [OF r] by blast
    qed
    from slot_round_trip [OF wf this]
    show "\<exists>s'. createLocalSlotBySharedSlot reg
              (createSharedSlotByLocalSlot (Slot sch runs attrs idx)) = Inr s'
            \<and> flat_slot s' = flat_slot (Slot sch runs attrs idx)" .
  qed
next
  case (Component nm st)
  show ?case
  proof
    assume wf: "well_formed_component reg (Component nm st)"
    with Component have "nm \<in> set (componentNames reg)"
      and "\<exists>m'. createLocalMapBySharedMap reg (createSharedMapByLocalMap st) = Inr m'
            \<and> flat_map m' = flat_map st" by auto
    then show "\<exists>c'. createLocalComponentBySharedComponent reg
                 (OfYMap (createSharedComponentByLocalComponent (Component nm st))) = Inr c'
            \<and> flat_component c' = flat_component (Component nm st)"
      by (rule component_round_trip)
  qed
qed

text \<open>
  Claim C1. For a registry and a local slot, a local component or any local value that is
  well formed for it, the conversion to the shared representation followed by the
  conversion back succeeds, and gives a tree with the flat form of the original: the same
  content unit by unit, the same formats on every unit, the same schema and slot
  attributes, and the same components inside, compared in the same way.
\<close>

theorem round_trip:
  "(well_formed_slot reg s \<longrightarrow>
      (\<exists>s'. createLocalSlotBySharedSlot reg (createSharedSlotByLocalSlot s) = Inr s'
           \<and> flat_slot s' = flat_slot s))
   \<and> (well_formed_component reg c \<longrightarrow>
      (\<exists>c'. createLocalComponentBySharedComponent reg
               (OfYMap (createSharedComponentByLocalComponent c)) = Inr c'
           \<and> flat_component c' = flat_component c))
   \<and> (well_formed reg m \<longrightarrow>
      (\<exists>m'. createLocalModelBySharedByModel reg (createSharedModelByLocalModel m) = Inr m'
           \<and> flat m' = flat m))"
  using round_trip_all(1) [of reg m] round_trip_all(4) [of reg s] round_trip_all(5) [of reg c]
  by blast

text \<open>
  The sample slot is well formed, so its round trip succeeds with its flat form kept.
\<close>

theorem round_trip_witness:
  "\<exists>s'. createLocalSlotBySharedSlot sample_registry (createSharedSlotByLocalSlot sample_slot) =
          Inr s'
       \<and> flat_slot s' = flat_slot sample_slot"
proof -
  have "well_formed_slot sample_registry sample_slot"
    by (simp add: sample_registry_def sample_slot_def well_formed_formats_def)
  with round_trip [of sample_registry sample_slot] show ?thesis by blast
qed

text \<open>
  What the round trip of the sample slot gives: the two runs of equal formats come back
  as one, and every cursor is behind the content.
\<close>

lemma round_trip_sample:
  "createLocalSlotBySharedSlot sample_registry (createSharedSlotByLocalSlot sample_slot) =
   Inr (Slot [JNum 1, JNum 2]
       [(Inl ''abcd'', Some []),
        (Inl ''e'', Some [(''color'', JStr ''red''), (''bold'', JBool True)]),
        (Inr (Component ''paragraph''
               (MapModel
                 [(''slot'',
                   OfSlot (Slot [JNum 1]
                     [(Inl ''hi'', Some [(''bold'', JBool True)]), (Inl ''!'', Some [])] [] 3)),
                  (''level'', Plain (JNum 3)),
                  (''items'', OfArray (ArrayModel [Plain JNull, Plain (JStr ''x'')]))])),
         Some [(''bold'', JBool True)]),
        (Inl ''z'', Some [])]
       [(''align'', JStr ''left'')] 7)"
  by code_simp

text \<open>
  Why a well-formed run has its formats: a run whose formats are absent is inserted with
  no attributes object, and takes the attributes of the text before it.
\<close>

lemma absent_formats_inherit:
  "createLocalSlotBySharedSlot sample_registry
     (createSharedSlotByLocalSlot
        (Slot [] [(Inl ''ab'', Some [(''bold'', JBool True)]), (Inl ''cd'', None)] [] 0)) =
   Inr (Slot [] [(Inl ''abcd'', Some [(''bold'', JBool True)])] [] 4)"
  by code_simp

end
